theory Spec2Isabelle
  imports Main "HOL-Library.Word" "HOL-Library.Code_Target_Nat"
begin

section \<open>The rules engine daemon (cgrulesengd.c)\<close>

text \<open>
  A shallow embedding of the three functions of \<^verbatim>\<open>cgrulesengd.c\<close> that receive,
  decode and dispatch the kernel's process events: \<^verbatim>\<open>cgre_process_event\<close>,
  \<^verbatim>\<open>cgre_handle_msg\<close> and \<^verbatim>\<open>cgre_create_netlink_socket_process_msg\<close>.

  The outside world (the \<^verbatim>\<open>/proc\<close> file system, the allocator, libcgroup, the socket)
  is an environment record the functions read. What the functions do to the world is a
  trace: the list of their side effects, in program order.
\<close>

subsection \<open>Data\<close>

type_synonym byte = "8 word"
type_synonym u32 = "32 word"

text \<open>
  Constants of the system headers (\<^verbatim>\<open>linux/cn_proc.h\<close>, \<^verbatim>\<open>linux/netlink.h\<close>,
  \<^verbatim>\<open>errno.h\<close>), with their Linux values.
\<close>

definition PROC_EVENT_UID :: u32 where
  "PROC_EVENT_UID = 0x4"

definition PROC_EVENT_GID :: u32 where
  "PROC_EVENT_GID = 0x40"

definition NLMSG_NOOP :: nat where
  "NLMSG_NOOP = 1"

definition NLMSG_ERROR :: nat where
  "NLMSG_ERROR = 2"

definition NLMSG_DONE :: nat where
  "NLMSG_DONE = 3"

definition NLMSG_OVERRUN :: nat where
  "NLMSG_OVERRUN = 4"

definition ENOBUFS :: nat where
  "ENOBUFS = 105"

text \<open>The one flag the daemon passes to libcgroup (\<^verbatim>\<open>libcgroup.h\<close>).\<close>

datatype cgflag = CGFLAG_USECACHE

text \<open>
  \<^verbatim>\<open>struct proc_event\<close>, as far as the daemon reads it: the discriminant \<^verbatim>\<open>what\<close> and
  the member \<^verbatim>\<open>event_data.id\<close>. The unions \<^verbatim>\<open>r\<close> (\<^verbatim>\<open>ruid\<close>/\<^verbatim>\<open>rgid\<close>) and \<^verbatim>\<open>e\<close>
  (\<^verbatim>\<open>euid\<close>/\<^verbatim>\<open>egid\<close>) are one 32-bit field each.
\<close>

record proc_event =
  what :: u32
  process_pid :: u32
  process_tgid :: u32
  id_r :: u32
  id_e :: u32

text \<open>The messages \<^verbatim>\<open>flog\<close> and \<^verbatim>\<open>printf\<close> write, by format string, with their arguments.\<close>

datatype message =
    Failed_to_open u32
  | Out_of_memory
  | Non_uid_gid_event
  | Attempting u32 u32 u32
  | FAILED int
  | OK
  | UID_Event
  | UID_fields u32 u32 u32 u32
  | GID_Event
  | GID_fields u32 u32 u32 u32
  | Netlink_buffer_full
  | Socket_error
  | Binding_error
  | Sending_listen
  | Sending_len
  | Send_failed
  | Sent

text \<open>
  Side effects. \<open>Fopen_status pid\<close> is the call \<^verbatim>\<open>fopen("/proc/<pid>/status", "r")\<close>: the
  path is a function of the pid alone. \<open>Change_cgroup uid gid pid flags\<close> is the call
  \<^verbatim>\<open>cgroup_change_cgroup_uid_gid_flags(uid, gid, pid, flags)\<close>.
\<close>

datatype effect =
    Fopen_status u32
  | Flog message
  | Printf message
  | Change_cgroup u32 u32 u32 cgflag
  | Close_socket

fun is_request :: "effect \<Rightarrow> bool" where
  "is_request (Change_cgroup uid gid pid fl) = True"
| "is_request _ = False"

fun is_lookup :: "effect \<Rightarrow> bool" where
  "is_lookup (Fopen_status pid) = True"
| "is_lookup _ = False"

definition requests :: "effect list \<Rightarrow> effect list" where
  "requests tr = filter is_request tr"

definition lookups :: "effect list \<Rightarrow> effect list" where
  "lookups tr = filter is_lookup tr"

text \<open>
  The environment.
  \<^item> \<open>proc_status pid\<close>: the contents of \<^verbatim>\<open>/proc/<pid>/status\<close>, or \<open>None\<close> when
    \<^verbatim>\<open>fopen\<close> returns \<^verbatim>\<open>NULL\<close>.
  \<^item> \<open>calloc_errno\<close>: \<open>None\<close> when \<^verbatim>\<open>calloc\<close> succeeds, \<open>Some e\<close> when it returns
    \<^verbatim>\<open>NULL\<close> and \<^verbatim>\<open>errno\<close> reads \<open>e\<close> at \<^verbatim>\<open>ret = errno\<close>.
  \<^item> \<open>stack_egid\<close>, \<open>stack_euid\<close>: the indeterminate values the locals \<^verbatim>\<open>egid\<close> and
    \<^verbatim>\<open>euid\<close> hold before anything is stored in them (they have no initialiser). They
    are values of one call: where several calls of a run read them, each call may find
    another value (what an earlier call left in the stack slot, for one), which one
    environment does not say.
  \<^item> \<open>change_cgroup uid gid pid\<close>: what \<^verbatim>\<open>cgroup_change_cgroup_uid_gid_flags\<close> returns.
  \<^item> \<open>socket_ok\<close>, \<open>bind_ok\<close>, \<open>send_ok\<close>: whether \<^verbatim>\<open>socket\<close>, \<^verbatim>\<open>bind\<close> and the
    \<^verbatim>\<open>send\<close> of the listen request succeed.
\<close>

record env =
  proc_status :: "u32 \<Rightarrow> string option"
  calloc_errno :: "int option"
  stack_egid :: u32
  stack_euid :: u32
  change_cgroup :: "u32 \<Rightarrow> u32 \<Rightarrow> u32 \<Rightarrow> int"
  socket_ok :: bool
  bind_ok :: bool
  send_ok :: bool

subsection \<open>The C library calls of the status scan\<close>

definition newline :: char where
  "newline = CHR 0x0A"

text \<open>
  \<^verbatim>\<open>fgets(buf, n, f)\<close> on the unread rest of a file: \<^verbatim>\<open>NULL\<close> at end of file, otherwise
  the next at most \<open>n - 1\<close> characters, ending after the first newline. It returns what it
  stored and the rest of the file.
\<close>

definition fgets :: "nat \<Rightarrow> string \<Rightarrow> (string \<times> string) option" where
  "fgets n f =
     (if f = [] then None
      else let k = min (n - 1) (Suc (length (takeWhile (\<lambda>c. c \<noteq> newline) f)))
           in Some (take k f, drop k f))"

text \<open>\<^verbatim>\<open>!strncmp(buf, label, 4)\<close> for a label of four characters, none of them NUL.\<close>

definition strncmp4_eq :: "string \<Rightarrow> string \<Rightarrow> bool" where
  "strncmp4_eq buf label = (take 4 buf = label)"

definition isspace :: "char \<Rightarrow> bool" where
  "isspace c = (c \<in> set [CHR 0x20, CHR 0x09, CHR 0x0A, CHR 0x0B, CHR 0x0C, CHR 0x0D])"

definition isdigit :: "char \<Rightarrow> bool" where
  "isdigit c = (48 \<le> (of_char c :: nat) \<and> (of_char c :: nat) \<le> 57)"

fun decimal :: "int \<Rightarrow> string \<Rightarrow> int" where
  "decimal acc [] = acc"
| "decimal acc (c # cs) = decimal (10 * acc + (int (of_char c) - 48)) cs"

text \<open>
  The C library converts the digits as \<^verbatim>\<open>strtol\<close> does: a number outside the range of
  \<^verbatim>\<open>long\<close> (64 bits) becomes the nearest bound of the range.
\<close>

definition strtol_range :: "int \<Rightarrow> int" where
  "strtol_range v = max (- (2 ^ 63)) (min (2 ^ 63 - 1) v)"

text \<open>
  One \<^verbatim>\<open>%d\<close> conversion: white space is skipped, then an optional sign and at least one
  digit are read. \<open>None\<close> is a matching failure; otherwise the value and the unread input.
\<close>

definition scan_d :: "string \<Rightarrow> (int \<times> string) option" where
  "scan_d s =
     (let s1 = dropWhile isspace s;
          neg = (s1 \<noteq> [] \<and> hd s1 = CHR ''-'');
          s2 = (if s1 \<noteq> [] \<and> (hd s1 = CHR ''-'' \<or> hd s1 = CHR ''+'') then tl s1 else s1);
          ds = takeWhile isdigit s2
      in if ds = [] then None
         else Some (strtol_range (if neg then - decimal 0 ds else decimal 0 ds),
                    dropWhile isdigit s2))"

text \<open>
  \<^verbatim>\<open>sscanf(s, "%d%d%d%d", ...)\<close> with \<open>n = 4\<close>: the values converted before the first
  failure, in order. Variables past them are not assigned.
\<close>

fun sscanf_d :: "nat \<Rightarrow> string \<Rightarrow> int list" where
  "sscanf_d 0 s = []"
| "sscanf_d (Suc n) s =
     (case scan_d s of None \<Rightarrow> [] | Some (v, rest) \<Rightarrow> v # sscanf_d n rest)"

text \<open>
  The second variable of the \<^verbatim>\<open>sscanf\<close> call (\<^verbatim>\<open>egid\<close>, \<^verbatim>\<open>euid\<close>) after the call: the
  second converted value, stored in 32 bits, or the variable's old value when fewer than
  two values were converted.
\<close>

definition second_or :: "u32 \<Rightarrow> int list \<Rightarrow> u32" where
  "second_or old vs = (if 2 \<le> length vs then word_of_int (vs ! 1) else old)"

subsection \<open>\<^verbatim>\<open>cgre_process_event\<close>\<close>

text \<open>
  The loop \<^verbatim>\<open>while (fgets(buf, 4096, f)) { if (!strncmp(buf, label, 4)) { sscanf(...);
  break; } memset(...); }\<close> on the unread rest \<open>f\<close> of the status file. It returns the
  buffer the label was found in and the rest of the file left unread, or \<open>None\<close> when
  \<^verbatim>\<open>fgets\<close> reached the end of the file first.
\<close>

function find_label :: "string \<Rightarrow> string \<Rightarrow> (string \<times> string) option" where
  "find_label label f =
     (case fgets 4096 f of
        None \<Rightarrow> None
      | Some (buf, f') \<Rightarrow>
          if strncmp4_eq buf label then Some (buf, f') else find_label label f')"
  by pat_completeness auto
termination
  by (relation "measure (\<lambda>(label, f). length f)")
     (auto simp: fgets_def Let_def split: if_splits)

text \<open>
  What the loop can read: the results of the successive calls \<^verbatim>\<open>fgets(buf, 4096, f)\<close>
  up to the end of the file. Each is a line of the file with its newline, but for a line
  of 4095 characters or more, which is read in pieces, and a last line with no newline.
\<close>

function status_reads :: "string \<Rightarrow> string list" where
  "status_reads f =
     (case fgets 4096 f of None \<Rightarrow> [] | Some (buf, f') \<Rightarrow> buf # status_reads f')"
  by pat_completeness auto
termination
  by (relation "measure length") (auto simp: fgets_def Let_def split: if_splits)

text \<open>
  The first \<^verbatim>\<open>switch\<close> for one event type. \<open>scan_values\<close>: the values the \<^verbatim>\<open>sscanf\<close>
  call converts from the buffer past its first five characters, or \<open>None\<close> when the loop
  ends without the call. \<open>scan_status\<close>: the value of the local (\<^verbatim>\<open>egid\<close> or \<^verbatim>\<open>euid\<close>)
  after the scan, starting from its indeterminate value \<open>old\<close>.
\<close>

definition scan_values :: "string \<Rightarrow> string \<Rightarrow> int list option" where
  "scan_values label f =
     (case find_label label f of
        None \<Rightarrow> None
      | Some (buf, f') \<Rightarrow> Some (sscanf_d 4 (drop 5 buf)))"

definition scan_status :: "string \<Rightarrow> u32 \<Rightarrow> string \<Rightarrow> u32" where
  "scan_status label old f =
     (case scan_values label f of None \<Rightarrow> old | Some vs \<Rightarrow> second_or old vs)"

definition cgre_process_event :: "env \<Rightarrow> proc_event \<Rightarrow> u32 \<Rightarrow> int \<times> effect list" where
  "cgre_process_event en ev type =
     (let pid = process_pid ev in
      case proc_status en pid of
        None \<Rightarrow> (0, [Fopen_status pid, Flog (Failed_to_open pid)])
      | Some f \<Rightarrow>
         (case calloc_errno en of
            Some e \<Rightarrow> (e, [Fopen_status pid, Flog Out_of_memory])
          | None \<Rightarrow>
              if type = PROC_EVENT_UID then
                let egid = scan_status ''Gid:'' (stack_egid en) f;
                    ret = change_cgroup en (id_e ev) egid pid
                in (ret, [Fopen_status pid,
                          Flog (Attempting pid (id_e ev) egid),
                          Change_cgroup (id_e ev) egid pid CGFLAG_USECACHE,
                          Flog (if ret \<noteq> 0 then FAILED ret else OK)])
              else if type = PROC_EVENT_GID then
                let euid = scan_status ''Uid:'' (stack_euid en) f;
                    ret = change_cgroup en euid (id_e ev) pid
                in (ret, [Fopen_status pid,
                          Flog (Attempting pid euid (id_e ev)),
                          Change_cgroup euid (id_e ev) pid CGFLAG_USECACHE,
                          Flog (if ret \<noteq> 0 then FAILED ret else OK)])
              else (0, [Fopen_status pid, Flog Non_uid_gid_event, Flog OK])))"

subsection \<open>\<^verbatim>\<open>cgre_handle_msg\<close>\<close>

text \<open>
  The receive buffer \<^verbatim>\<open>buff\<close> is the list of the bytes \<^verbatim>\<open>recvfrom\<close> stored in it, at
  most \<^verbatim>\<open>BUFF_SIZE\<close> of them (the constant is declared in \<^verbatim>\<open>cgrulesengd.h\<close>; nothing
  here depends on its value). The array is cleared before every receive, so a byte past
  the stored ones reads 0. (A read past the end of the array itself is not told apart:
  it reads 0 here as well.) Integers are little-endian, as on the machines the daemon
  runs on.
\<close>

definition byte_at :: "byte list \<Rightarrow> nat \<Rightarrow> nat" where
  "byte_at buff i = (if i < length buff then unat (buff ! i) else 0)"

definition le16 :: "byte list \<Rightarrow> nat \<Rightarrow> nat" where
  "le16 buff i = byte_at buff i + 256 * byte_at buff (i + 1)"

definition le32 :: "byte list \<Rightarrow> nat \<Rightarrow> nat" where
  "le32 buff i = le16 buff i + 65536 * le16 buff (i + 2)"

definition u32_at :: "byte list \<Rightarrow> nat \<Rightarrow> u32" where
  "u32_at buff i = of_nat (le32 buff i)"

text \<open>
  The casts of the buffer to the kernel's structures, by the layout of the kernel headers.
  \<^verbatim>\<open>struct nlmsghdr\<close> (16 bytes): \<^verbatim>\<open>nlmsg_len\<close> at 0 (32 bits), \<^verbatim>\<open>nlmsg_type\<close> at 4
  (16 bits). \<^verbatim>\<open>struct cn_msg\<close>: \<^verbatim>\<open>data\<close> at 20. \<^verbatim>\<open>struct proc_event\<close>: \<^verbatim>\<open>what\<close> at 0,
  \<^verbatim>\<open>event_data\<close> at 16, and in \<^verbatim>\<open>event_data.id\<close> the pid at 0, the tgid at 4, \<^verbatim>\<open>r\<close> at 8
  and \<^verbatim>\<open>e\<close> at 12. A pointer into \<^verbatim>\<open>buff\<close> is its offset.
\<close>

definition nlmsg_len :: "byte list \<Rightarrow> nat \<Rightarrow> nat" where
  "nlmsg_len buff nlh = le32 buff nlh"

definition nlmsg_type :: "byte list \<Rightarrow> nat \<Rightarrow> nat" where
  "nlmsg_type buff nlh = le16 buff (nlh + 4)"

definition cn_data :: "nat \<Rightarrow> nat" where
  "cn_data cn_hdr = cn_hdr + 20"

definition proc_event_at :: "byte list \<Rightarrow> nat \<Rightarrow> proc_event" where
  "proc_event_at buff p =
     \<lparr>what = u32_at buff p,
      process_pid = u32_at buff (p + 16),
      process_tgid = u32_at buff (p + 20),
      id_r = u32_at buff (p + 24),
      id_e = u32_at buff (p + 28)\<rparr>"

definition cgre_handle_msg :: "env \<Rightarrow> byte list \<Rightarrow> nat \<Rightarrow> int \<times> effect list" where
  "cgre_handle_msg en buff cn_hdr =
     (let ev = proc_event_at buff (cn_data cn_hdr) in
      if what ev = PROC_EVENT_UID then
        let res = cgre_process_event en ev PROC_EVENT_UID
        in (fst res,
            Flog UID_Event
              # Flog (UID_fields (process_pid ev) (process_tgid ev) (id_r ev) (id_e ev))
              # snd res)
      else if what ev = PROC_EVENT_GID then
        let res = cgre_process_event en ev PROC_EVENT_GID
        in (fst res,
            Flog GID_Event
              # Flog (GID_fields (process_pid ev) (process_tgid ev) (id_r ev) (id_e ev))
              # snd res)
      else (0, []))"

subsection \<open>\<^verbatim>\<open>cgre_create_netlink_socket_process_msg\<close>\<close>

text \<open>
  The macros of \<^verbatim>\<open>linux/netlink.h\<close>. \<^verbatim>\<open>recv_len\<close> is a \<^verbatim>\<open>size_t\<close> (64 bits),
  \<^verbatim>\<open>nlmsg_len\<close> an unsigned 32-bit integer; both are natural numbers here and the
  wrap-around is written out.
\<close>

definition NLMSG_OK :: "byte list \<Rightarrow> nat \<Rightarrow> nat \<Rightarrow> bool" where
  "NLMSG_OK buff nlh len =
     (16 \<le> len \<and> 16 \<le> nlmsg_len buff nlh \<and> nlmsg_len buff nlh \<le> len)"

definition NLMSG_ALIGN :: "nat \<Rightarrow> nat" where
  "NLMSG_ALIGN len = ((len + 3) mod 2 ^ 32) div 4 * 4"

definition NLMSG_DATA :: "nat \<Rightarrow> nat" where
  "NLMSG_DATA nlh = nlh + 16"

text \<open>\<^verbatim>\<open>NLMSG_NEXT(nlh, len)\<close>: the new \<^verbatim>\<open>nlh\<close>, and the new value of \<^verbatim>\<open>len\<close>.\<close>

definition NLMSG_NEXT :: "byte list \<Rightarrow> nat \<Rightarrow> nat" where
  "NLMSG_NEXT buff nlh = nlh + NLMSG_ALIGN (nlmsg_len buff nlh)"

definition NLMSG_NEXT_len :: "byte list \<Rightarrow> nat \<Rightarrow> nat \<Rightarrow> nat" where
  "NLMSG_NEXT_len buff nlh len =
     (len + 2 ^ 64 - NLMSG_ALIGN (nlmsg_len buff nlh)) mod 2 ^ 64"

text \<open>How the \<^verbatim>\<open>while\<close> loop over the frames of one receive is left.\<close>

datatype batch_end = Next_receive | Close_and_exit

text \<open>
  The loop \<^verbatim>\<open>while (NLMSG_OK(nlh, recv_len)) { ... }\<close>, from the state (\<^verbatim>\<open>nlh\<close>,
  \<^verbatim>\<open>recv_len\<close>) with the trace \<open>tr\<close> so far. \<open>None\<close>: the loop never ends.
\<close>

partial_function (option) frame_loop ::
  "env \<Rightarrow> byte list \<Rightarrow> nat \<Rightarrow> nat \<Rightarrow> effect list \<Rightarrow> (batch_end \<times> effect list) option"
where
  "frame_loop en buff nlh recv_len tr =
     (if NLMSG_OK buff nlh recv_len then
        if nlmsg_type buff nlh = NLMSG_NOOP then
          frame_loop en buff nlh recv_len tr
        else if nlmsg_type buff nlh = NLMSG_ERROR \<or> nlmsg_type buff nlh = NLMSG_OVERRUN then
          Some (Next_receive, tr)
        else if fst (cgre_handle_msg en buff (NLMSG_DATA nlh)) < 0 then
          Some (Close_and_exit, tr @ snd (cgre_handle_msg en buff (NLMSG_DATA nlh)))
        else if nlmsg_type buff nlh = NLMSG_DONE then
          Some (Next_receive, tr @ snd (cgre_handle_msg en buff (NLMSG_DATA nlh)))
        else
          frame_loop en buff (NLMSG_NEXT buff nlh) (NLMSG_NEXT_len buff nlh recv_len)
            (tr @ snd (cgre_handle_msg en buff (NLMSG_DATA nlh)))
      else Some (Next_receive, tr))"

declare frame_loop.simps [code]

text \<open>
  What one \<^verbatim>\<open>recvfrom\<close> does: it fails (it returns -1 and stores nothing), or it stores
  the bytes of a datagram and returns their number.
\<close>

datatype recv = Recv_error | Recv_ok "byte list"

text \<open>What \<^verbatim>\<open>recvfrom\<close> returns (an \<^verbatim>\<open>ssize_t\<close>), and the buffer after the call.\<close>

fun recvfrom :: "recv \<Rightarrow> int" where
  "recvfrom Recv_error = - 1"
| "recvfrom (Recv_ok bs) = int (length bs)"

fun buff_of :: "recv \<Rightarrow> byte list" where
  "buff_of Recv_error = []"
| "buff_of (Recv_ok bs) = bs"

text \<open>The conversion of the assignment \<^verbatim>\<open>recv_len = recvfrom(...)\<close> to \<^verbatim>\<open>size_t\<close>.\<close>

definition size_t_of :: "int \<Rightarrow> nat" where
  "size_t_of i = nat (i mod 2 ^ 64)"

text \<open>
  How far the daemon is once the receives given to it are used up: blocked in the next
  \<^verbatim>\<open>recvfrom\<close>, or returned with a code.
\<close>

datatype daemon = Listening | Returned int

text \<open>
  The endless \<^verbatim>\<open>for\<close> loop, run on the outcomes of its first receives, in order.
\<close>

fun receive_loop :: "env \<Rightarrow> recv list \<Rightarrow> effect list \<Rightarrow> (daemon \<times> effect list) option" where
  "receive_loop en [] tr = Some (Listening, tr)"
| "receive_loop en (r # rs) tr =
     (let recv_len = size_t_of (recvfrom r) in
      if recv_len = ENOBUFS then receive_loop en rs (tr @ [Flog Netlink_buffer_full])
      else if recv_len < 1 then receive_loop en rs tr
      else
        (case frame_loop en (buff_of r) 0 recv_len tr of
           None \<Rightarrow> None
         | Some (Next_receive, tr') \<Rightarrow> receive_loop en rs tr'
         | Some (Close_and_exit, tr') \<Rightarrow> Some (Returned (- 1), tr' @ [Close_socket])))"

definition cgre_create_netlink_socket_process_msg ::
  "env \<Rightarrow> recv list \<Rightarrow> (daemon \<times> effect list) option" where
  "cgre_create_netlink_socket_process_msg en recvs =
     (if \<not> socket_ok en then Some (Returned (- 1), [Printf Socket_error])
      else if \<not> bind_ok en then Some (Returned (- 1), [Printf Binding_error, Close_socket])
      else if \<not> send_ok en then
        Some (Returned (- 1),
              [Printf Sending_listen, Printf Sending_len, Printf Send_failed, Close_socket])
      else receive_loop en recvs [Printf Sending_listen, Printf Sending_len, Printf Sent])"

subsection \<open>Well-formed receives\<close>

text \<open>
  A buffer holds back-to-back frames of the declared lengths \<open>lens\<close> from the offset
  \<open>off\<close> on: each frame starts where the one before it ends, its header gives its length,
  and the length covers the header (16 bytes) and is aligned (a multiple of 4, as the
  kernel's are).
\<close>

primrec back_to_back :: "byte list \<Rightarrow> nat \<Rightarrow> nat list \<Rightarrow> bool" where
  "back_to_back buff off [] = True"
| "back_to_back buff off (l # ls) =
     (nlmsg_len buff off = l \<and> 16 \<le> l \<and> l mod 4 = 0 \<and> back_to_back buff (off + l) ls)"

primrec frame_offsets :: "nat \<Rightarrow> nat list \<Rightarrow> nat list" where
  "frame_offsets off [] = []"
| "frame_offsets off (l # ls) = off # frame_offsets (off + l) ls"

text \<open>The trace of handling the frames at the offsets \<open>offs\<close>, one after the other.\<close>

definition handled :: "env \<Rightarrow> byte list \<Rightarrow> nat list \<Rightarrow> effect list" where
  "handled en buff offs =
     concat (map (\<lambda>nlh. snd (cgre_handle_msg en buff (NLMSG_DATA nlh))) offs)"

subsection \<open>Example inputs\<close>

text \<open>The four bytes of a 32-bit integer, and a frame that carries one id event.\<close>

definition u32le :: "nat \<Rightarrow> byte list" where
  "u32le n = [of_nat n, of_nat (n div 256), of_nat (n div 65536), of_nat (n div 16777216)]"

definition event_frame :: "nat \<Rightarrow> nat \<Rightarrow> nat \<Rightarrow> nat \<Rightarrow> nat \<Rightarrow> nat \<Rightarrow> byte list" where
  "event_frame ty wh pid tgid r e =
     u32le 68 @ u32le ty @ replicate 28 0 @ u32le wh @ replicate 12 0 @
     u32le pid @ u32le tgid @ u32le r @ u32le e"

text \<open>
  A world where only \<^verbatim>\<open>/proc/100/status\<close> may exist, allocation succeeds and libcgroup
  answers every request with \<open>ret\<close>.
\<close>

definition world :: "string option \<Rightarrow> int \<Rightarrow> env" where
  "world status ret =
     \<lparr>proc_status = (\<lambda>pid. if pid = 100 then status else None),
      calloc_errno = None,
      stack_egid = 0xDEAD,
      stack_euid = 0xBEEF,
      change_cgroup = (\<lambda>uid gid pid. ret),
      socket_ok = True, bind_ok = True, send_ok = True\<rparr>"

definition uid_event :: proc_event where
  "uid_event =
     \<lparr>what = PROC_EVENT_UID, process_pid = 100, process_tgid = 100,
      id_r = 1000, id_e = 2000\<rparr>"

text \<open>
  Two receives of two event frames each, a UID_CHANGE and then a GID_CHANGE event of pid
  100. In the first the last frame has the type \<^verbatim>\<open>NLMSG_DONE\<close>, in the second the first
  frame has it. And a status record with its Uid and Gid lines.
\<close>

definition two_frames :: "byte list" where
  "two_frames = event_frame 0 4 100 100 1000 2000 @ event_frame 3 64 100 100 1000 2000"

definition done_first :: "byte list" where
  "done_first = event_frame 3 4 100 100 1000 2000 @ event_frame 0 64 100 100 1000 2000"

definition status_100 :: string where
  "status_100 = ''Uid: 10 20 10 10'' @ [newline] @ ''Gid: 30 40 30 30'' @ [newline]"

text \<open>A frame of 16 bytes, the header alone, of type \<^verbatim>\<open>NLMSG_NOOP\<close>.\<close>

definition noop_frame :: "byte list" where
  "noop_frame = u32le 16 @ u32le 1 @ replicate 8 0"

section \<open>Properties\<close>

subsection \<open>The status scan\<close>

declare find_label.simps [simp del]
declare status_reads.simps [simp del]

lemma status_reads_Nil: "fgets 4096 f = None \<Longrightarrow> status_reads f = []"
  by (subst status_reads.simps) simp

lemma status_reads_Cons:
  "fgets 4096 f = Some (buf, f') \<Longrightarrow> status_reads f = buf # status_reads f'"
  by (subst status_reads.simps) simp

lemma status_reads_eq_Cons:
  assumes "status_reads f = b # bs"
  shows "\<exists>f'. fgets 4096 f = Some (b, f') \<and> status_reads f' = bs"
proof (cases "fgets 4096 f")
  case None
  with assms show ?thesis by (simp add: status_reads_Nil)
next
  case (Some p)
  obtain buf f' where p: "p = (buf, f')" by (cases p)
  from Some p assms show ?thesis by (simp add: status_reads_Cons)
qed

lemma find_label_reads:
  assumes "status_reads f = pre @ l # rest"
    and "\<forall>b \<in> set pre. \<not> strncmp4_eq b label"
    and "strncmp4_eq l label"
  shows "\<exists>f'. find_label label f = Some (l, f') \<and> status_reads f' = rest"
  using assms
proof (induction pre arbitrary: f)
  case Nil
  then obtain f' where "fgets 4096 f = Some (l, f')" "status_reads f' = rest"
    using status_reads_eq_Cons [of f l rest] by auto
  with Nil.prems(3) show ?case by (subst find_label.simps) simp
next
  case (Cons b pre)
  then obtain f1 where f1: "fgets 4096 f = Some (b, f1)" "status_reads f1 = pre @ l # rest"
    using status_reads_eq_Cons [of f b "pre @ l # rest"] by auto
  from Cons.prems(2) have nb: "\<not> strncmp4_eq b label" by simp
  from Cons.IH [OF f1(2)] Cons.prems obtain f' where
    "find_label label f1 = Some (l, f')" "status_reads f' = rest" by auto
  with f1 nb show ?case by (subst find_label.simps) simp
qed

lemma find_label_none:
  "\<forall>b \<in> set (status_reads f). \<not> strncmp4_eq b label \<Longrightarrow> find_label label f = None"
proof (induction label f rule: find_label.induct)
  case (1 label f)
  show ?case
  proof (cases "fgets 4096 f")
    case None
    then show ?thesis by (subst find_label.simps) simp
  next
    case (Some p)
    obtain buf f' where p: "p = (buf, f')" by (cases p)
    from Some p have sr: "status_reads f = buf # status_reads f'"
      by (simp add: status_reads_Cons)
    with "1.prems" have nb: "\<not> strncmp4_eq buf label"
      and rest: "\<forall>b \<in> set (status_reads f'). \<not> strncmp4_eq b label" by simp_all
    from "1.IH" [OF _ _ nb rest] Some p have "find_label label f' = None" by simp
    with Some p nb show ?thesis by (subst find_label.simps) simp
  qed
qed

lemma fgets_line:
  assumes "newline \<notin> set l" and "length l < 4095"
  shows "fgets 4096 (l @ newline # rest) = Some (l @ [newline], rest)"
proof -
  have "takeWhile (\<lambda>c. c \<noteq> newline) (l @ newline # rest) = l"
    using assms(1) by (induction l) auto
  moreover have "min (4096 - 1) (Suc (length l)) = Suc (length l)"
    using assms(2) by simp
  ultimately have "fgets 4096 (l @ newline # rest) =
      Some (take (Suc (length l)) (l @ newline # rest), drop (Suc (length l)) (l @ newline # rest))"
    unfolding fgets_def Let_def by simp
  then show ?thesis by simp
qed

lemma status_reads_lines:
  assumes "\<forall>l \<in> set ls. newline \<notin> set l \<and> length l < 4095"
  shows "status_reads (concat (map (\<lambda>l. l @ [newline]) ls)) = map (\<lambda>l. l @ [newline]) ls"
  using assms
proof (induction ls)
  case Nil
  show ?case by (simp add: status_reads_Nil fgets_def)
next
  case (Cons l ls)
  then have "fgets 4096 (l @ newline # concat (map (\<lambda>l. l @ [newline]) ls)) =
      Some (l @ [newline], concat (map (\<lambda>l. l @ [newline]) ls))"
    by (simp add: fgets_line)
  with Cons show ?case by (simp add: status_reads_Cons)
qed

subsection \<open>The frame loop\<close>

lemma frame_loop_stop:
  "\<not> NLMSG_OK buff nlh len \<Longrightarrow> frame_loop en buff nlh len tr = Some (Next_receive, tr)"
  by (subst frame_loop.simps) simp

lemma frame_loop_error:
  "NLMSG_OK buff nlh len \<Longrightarrow> nlmsg_type buff nlh \<noteq> NLMSG_NOOP \<Longrightarrow>
   nlmsg_type buff nlh = NLMSG_ERROR \<or> nlmsg_type buff nlh = NLMSG_OVERRUN \<Longrightarrow>
   frame_loop en buff nlh len tr = Some (Next_receive, tr)"
  by (subst frame_loop.simps) simp

lemma frame_loop_exit:
  "NLMSG_OK buff nlh len \<Longrightarrow> nlmsg_type buff nlh \<noteq> NLMSG_NOOP \<Longrightarrow>
   nlmsg_type buff nlh \<noteq> NLMSG_ERROR \<Longrightarrow> nlmsg_type buff nlh \<noteq> NLMSG_OVERRUN \<Longrightarrow>
   fst (cgre_handle_msg en buff (NLMSG_DATA nlh)) < 0 \<Longrightarrow>
   frame_loop en buff nlh len tr =
     Some (Close_and_exit, tr @ snd (cgre_handle_msg en buff (NLMSG_DATA nlh)))"
  by (subst frame_loop.simps) simp

lemma frame_loop_done:
  "NLMSG_OK buff nlh len \<Longrightarrow> nlmsg_type buff nlh \<noteq> NLMSG_NOOP \<Longrightarrow>
   nlmsg_type buff nlh \<noteq> NLMSG_ERROR \<Longrightarrow> nlmsg_type buff nlh \<noteq> NLMSG_OVERRUN \<Longrightarrow>
   \<not> fst (cgre_handle_msg en buff (NLMSG_DATA nlh)) < 0 \<Longrightarrow>
   nlmsg_type buff nlh = NLMSG_DONE \<Longrightarrow>
   frame_loop en buff nlh len tr =
     Some (Next_receive, tr @ snd (cgre_handle_msg en buff (NLMSG_DATA nlh)))"
  by (subst frame_loop.simps) simp

lemma frame_loop_next:
  "NLMSG_OK buff nlh len \<Longrightarrow> nlmsg_type buff nlh \<noteq> NLMSG_NOOP \<Longrightarrow>
   nlmsg_type buff nlh \<noteq> NLMSG_ERROR \<Longrightarrow> nlmsg_type buff nlh \<noteq> NLMSG_OVERRUN \<Longrightarrow>
   \<not> fst (cgre_handle_msg en buff (NLMSG_DATA nlh)) < 0 \<Longrightarrow>
   nlmsg_type buff nlh \<noteq> NLMSG_DONE \<Longrightarrow>
   frame_loop en buff nlh len tr =
     frame_loop en buff (NLMSG_NEXT buff nlh) (NLMSG_NEXT_len buff nlh len)
       (tr @ snd (cgre_handle_msg en buff (NLMSG_DATA nlh)))"
  by (subst frame_loop.simps) simp

lemma frame_loop_Some_not_noop:
  assumes "frame_loop en buff nlh len tr = Some y"
  shows "\<not> (NLMSG_OK buff nlh len \<and> nlmsg_type buff nlh = NLMSG_NOOP)"
proof (rule frame_loop.raw_induct
    [where P = "\<lambda>en buff nlh len tr y.
                  \<not> (NLMSG_OK buff nlh len \<and> nlmsg_type buff nlh = NLMSG_NOOP)",
     OF _ assms])
  fix f en buff nlh len tr and y :: "batch_end \<times> effect list"
  assume IH: "\<And>en buff nlh len tr y. f en buff nlh len tr = Some y \<Longrightarrow>
                \<not> (NLMSG_OK buff nlh len \<and> nlmsg_type buff nlh = NLMSG_NOOP)"
    and body: "(if NLMSG_OK buff nlh len then
        if nlmsg_type buff nlh = NLMSG_NOOP then
          f en buff nlh len tr
        else if nlmsg_type buff nlh = NLMSG_ERROR \<or> nlmsg_type buff nlh = NLMSG_OVERRUN then
          Some (Next_receive, tr)
        else if fst (cgre_handle_msg en buff (NLMSG_DATA nlh)) < 0 then
          Some (Close_and_exit, tr @ snd (cgre_handle_msg en buff (NLMSG_DATA nlh)))
        else if nlmsg_type buff nlh = NLMSG_DONE then
          Some (Next_receive, tr @ snd (cgre_handle_msg en buff (NLMSG_DATA nlh)))
        else
          f en buff (NLMSG_NEXT buff nlh) (NLMSG_NEXT_len buff nlh len)
            (tr @ snd (cgre_handle_msg en buff (NLMSG_DATA nlh)))
      else Some (Next_receive, tr)) = Some y"
  show "\<not> (NLMSG_OK buff nlh len \<and> nlmsg_type buff nlh = NLMSG_NOOP)"
  proof
    assume a: "NLMSG_OK buff nlh len \<and> nlmsg_type buff nlh = NLMSG_NOOP"
    with body have "f en buff nlh len tr = Some y" by simp
    from IH [OF this] a show False by simp
  qed
qed

lemma frame_loop_noop:
  "NLMSG_OK buff nlh len \<Longrightarrow> nlmsg_type buff nlh = NLMSG_NOOP \<Longrightarrow>
   frame_loop en buff nlh len tr = None"
  using frame_loop_Some_not_noop [of en buff nlh len tr] by (cases "frame_loop en buff nlh len tr") auto

lemma byte_at_bound: "byte_at buff i < 256"
proof -
  have "unat (buff ! i) < 2 ^ LENGTH(8)" by (rule unsigned_less)
  then show ?thesis by (simp add: byte_at_def)
qed

lemma le32_bound: "le32 buff i < 2 ^ 32"
  using byte_at_bound [of buff i] byte_at_bound [of buff "i + 1"]
    byte_at_bound [of buff "i + 2"] byte_at_bound [of buff "i + 2 + 1"]
  by (simp add: le32_def le16_def)

lemma NLMSG_ALIGN_aligned:
  assumes "l mod 4 = 0" and "l < 2 ^ 32"
  shows "NLMSG_ALIGN l = l"
proof -
  from assms(2) have "l < 4294967296" by simp
  with assms(1) have "l + 3 < 4294967296" by presburger
  then have "l + 3 < 2 ^ 32" by simp
  then have "(l + 3) mod 2 ^ 32 = l + 3" by simp
  moreover from assms(1) have "(l + 3) div 4 * 4 = l" by presburger
  ultimately show ?thesis by (simp add: NLMSG_ALIGN_def)
qed

lemma back_to_back_sum_mod: "back_to_back buff off lens \<Longrightarrow> sum_list lens mod 4 = 0"
  by (induction lens arbitrary: off) (auto simp: mod_add_eq [symmetric])

lemma frame_loop_back_to_back:
  assumes "back_to_back buff off lens"
    and "sum_list lens < 2 ^ 64"
    and "\<forall>nlh \<in> set (frame_offsets off lens).
           nlmsg_type buff nlh \<noteq> NLMSG_NOOP \<and> nlmsg_type buff nlh \<noteq> NLMSG_ERROR \<and>
           nlmsg_type buff nlh \<noteq> NLMSG_OVERRUN"
    and "\<forall>nlh \<in> set (butlast (frame_offsets off lens)). nlmsg_type buff nlh \<noteq> NLMSG_DONE"
    and "\<forall>nlh \<in> set (frame_offsets off lens).
           0 \<le> fst (cgre_handle_msg en buff (NLMSG_DATA nlh))"
  shows "frame_loop en buff off (sum_list lens) tr =
           Some (Next_receive, tr @ handled en buff (frame_offsets off lens))"
  using assms
proof (induction lens arbitrary: off tr)
  case Nil
  have "\<not> NLMSG_OK buff off 0" by (simp add: NLMSG_OK_def)
  then show ?case by (simp add: frame_loop_stop handled_def)
next
  case (Cons l ls)
  let ?h = "snd (cgre_handle_msg en buff (NLMSG_DATA off))"
  from Cons.prems(1) have len: "nlmsg_len buff off = l" and l16: "16 \<le> l"
    and l4: "l mod 4 = 0" and btb: "back_to_back buff (off + l) ls" by simp_all
  have l32: "l < 2 ^ 32" using le32_bound [of buff off] len by (simp add: nlmsg_len_def)
  have al: "NLMSG_ALIGN l = l" using l4 l32 by (rule NLMSG_ALIGN_aligned)
  have ok: "NLMSG_OK buff off (sum_list (l # ls))" using len l16 by (simp add: NLMSG_OK_def)
  from Cons.prems(3) have ty: "nlmsg_type buff off \<noteq> NLMSG_NOOP"
    "nlmsg_type buff off \<noteq> NLMSG_ERROR" "nlmsg_type buff off \<noteq> NLMSG_OVERRUN" by simp_all
  from Cons.prems(5) have ret: "\<not> fst (cgre_handle_msg en buff (NLMSG_DATA off)) < 0"
    by simp
  show ?case
  proof (cases "nlmsg_type buff off = NLMSG_DONE")
    case True
    with Cons.prems(4) have "ls = []" by (cases ls) auto
    with frame_loop_done [OF ok ty ret True] show ?thesis by (simp add: handled_def)
  next
    case False
    have nx: "NLMSG_NEXT buff off = off + l" by (simp add: NLMSG_NEXT_def len al)
    have "(l + sum_list ls + 2 ^ 64 - l) mod 2 ^ 64 = sum_list ls"
      using Cons.prems(2) by simp
    then have nl: "NLMSG_NEXT_len buff off (sum_list (l # ls)) = sum_list ls"
      by (simp add: NLMSG_NEXT_len_def len al)
    have p2: "sum_list ls < 2 ^ 64" using Cons.prems(2) by simp
    have p3: "\<forall>nlh \<in> set (frame_offsets (off + l) ls).
           nlmsg_type buff nlh \<noteq> NLMSG_NOOP \<and> nlmsg_type buff nlh \<noteq> NLMSG_ERROR \<and>
           nlmsg_type buff nlh \<noteq> NLMSG_OVERRUN" using Cons.prems(3) by simp
    have p4: "\<forall>nlh \<in> set (butlast (frame_offsets (off + l) ls)).
           nlmsg_type buff nlh \<noteq> NLMSG_DONE" using Cons.prems(4) by (auto split: if_splits)
    have p5: "\<forall>nlh \<in> set (frame_offsets (off + l) ls).
           0 \<le> fst (cgre_handle_msg en buff (NLMSG_DATA nlh))" using Cons.prems(5) by simp
    have "frame_loop en buff off (sum_list (l # ls)) tr =
        frame_loop en buff (off + l) (sum_list ls) (tr @ ?h)"
      using frame_loop_next [OF ok ty ret False, of tr] by (simp only: nx nl)
    also have "\<dots> = Some (Next_receive, (tr @ ?h) @ handled en buff (frame_offsets (off + l) ls))"
      by (rule Cons.IH [OF btb p2 p3 p4 p5])
    finally show ?thesis by (simp add: handled_def)
  qed
qed

subsection \<open>Processing one event\<close>

lemma process_event_no_file:
  "proc_status en (process_pid ev) = None \<Longrightarrow>
   cgre_process_event en ev type =
     (0, [Fopen_status (process_pid ev), Flog (Failed_to_open (process_pid ev))])"
  by (simp add: cgre_process_event_def Let_def)

lemma process_event_uid:
  "proc_status en (process_pid ev) = Some f \<Longrightarrow> calloc_errno en = None \<Longrightarrow>
   egid = scan_status ''Gid:'' (stack_egid en) f \<Longrightarrow>
   ret = change_cgroup en (id_e ev) egid (process_pid ev) \<Longrightarrow>
   cgre_process_event en ev PROC_EVENT_UID =
     (ret,
      [Fopen_status (process_pid ev),
       Flog (Attempting (process_pid ev) (id_e ev) egid),
       Change_cgroup (id_e ev) egid (process_pid ev) CGFLAG_USECACHE,
       Flog (if ret \<noteq> 0 then FAILED ret else OK)])"
  by (simp add: cgre_process_event_def Let_def)

lemma process_event_gid:
  "proc_status en (process_pid ev) = Some f \<Longrightarrow> calloc_errno en = None \<Longrightarrow>
   euid = scan_status ''Uid:'' (stack_euid en) f \<Longrightarrow>
   ret = change_cgroup en euid (id_e ev) (process_pid ev) \<Longrightarrow>
   cgre_process_event en ev PROC_EVENT_GID =
     (ret,
      [Fopen_status (process_pid ev),
       Flog (Attempting (process_pid ev) euid (id_e ev)),
       Change_cgroup euid (id_e ev) (process_pid ev) CGFLAG_USECACHE,
       Flog (if ret \<noteq> 0 then FAILED ret else OK)])"
  by (simp add: cgre_process_event_def Let_def PROC_EVENT_UID_def PROC_EVENT_GID_def)

lemma scan_values_first:
  assumes "status_reads f = pre @ l # rest"
    and "\<forall>b \<in> set pre. \<not> strncmp4_eq b label"
    and "strncmp4_eq l label"
  shows "scan_values label f = Some (sscanf_d 4 (drop 5 l))"
  using find_label_reads [OF assms] by (auto simp: scan_values_def)

lemma scan_values_none:
  "\<forall>b \<in> set (status_reads f). \<not> strncmp4_eq b label \<Longrightarrow> scan_values label f = None"
  by (simp add: scan_values_def find_label_none)

lemma sscanf_30_40: "sscanf_d 4 ''30 40 30 30'' = [30, 40, 30, 30]"
  by code_simp

lemma sscanf_30_40_nl: "sscanf_d 4 (''30 40 30 30'' @ [newline]) = [30, 40, 30, 30]"
  by code_simp

lemma process_event_label_missing:
  assumes "proc_status en (process_pid ev) = Some f" and "calloc_errno en = None"
    and "\<forall>b \<in> set (status_reads f). \<not> strncmp4_eq b ''Gid:''"
  shows "requests (snd (cgre_process_event en ev PROC_EVENT_UID)) =
           [Change_cgroup (id_e ev) (stack_egid en) (process_pid ev) CGFLAG_USECACHE]"
proof -
  from assms(3) have "scan_status ''Gid:'' (stack_egid en) f = stack_egid en"
    by (simp add: scan_status_def scan_values_none)
  with process_event_uid [OF assms(1,2) refl refl] show ?thesis
    by (simp add: requests_def)
qed

subsection \<open>Handling one frame\<close>

lemma handle_msg_no_file:
  assumes "ev = proc_event_at buff (cn_data cn_hdr)"
    and "what ev = PROC_EVENT_UID \<or> what ev = PROC_EVENT_GID"
    and "proc_status en (process_pid ev) = None"
  shows "cgre_handle_msg en buff cn_hdr =
     (0, [Flog (if what ev = PROC_EVENT_UID then UID_Event else GID_Event),
          Flog ((if what ev = PROC_EVENT_UID then UID_fields else GID_fields)
                  (process_pid ev) (process_tgid ev) (id_r ev) (id_e ev)),
          Fopen_status (process_pid ev),
          Flog (Failed_to_open (process_pid ev))])"
  using assms process_event_no_file [of en ev]
  by (auto simp: cgre_handle_msg_def Let_def PROC_EVENT_UID_def PROC_EVENT_GID_def)

lemma frame_loop_handled:
  assumes "NLMSG_OK buff nlh len"
    and "nlmsg_type buff nlh \<noteq> NLMSG_NOOP"
    and "nlmsg_type buff nlh \<noteq> NLMSG_ERROR"
    and "nlmsg_type buff nlh \<noteq> NLMSG_OVERRUN"
    and "0 \<le> fst (cgre_handle_msg en buff (NLMSG_DATA nlh))"
  shows "frame_loop en buff nlh len tr =
     (if nlmsg_type buff nlh = NLMSG_DONE
      then Some (Next_receive, tr @ snd (cgre_handle_msg en buff (NLMSG_DATA nlh)))
      else frame_loop en buff (NLMSG_NEXT buff nlh) (NLMSG_NEXT_len buff nlh len)
             (tr @ snd (cgre_handle_msg en buff (NLMSG_DATA nlh))))"
proof -
  from assms(5) have r: "\<not> fst (cgre_handle_msg en buff (NLMSG_DATA nlh)) < 0" by simp
  show ?thesis
    using frame_loop_done [OF assms(1-4) r] frame_loop_next [OF assms(1-4) r] by simp
qed


lemma handle_msg_dispatch:
  assumes "ev = proc_event_at buff (cn_data cn_hdr)"
    and "what ev = PROC_EVENT_UID \<or> what ev = PROC_EVENT_GID"
    and "proc_status en (process_pid ev) = Some f"
    and "calloc_errno en = None"
  shows "\<exists>uid gid m1 m2.
     cgre_handle_msg en buff cn_hdr =
       (change_cgroup en uid gid (process_pid ev),
        [Flog m1, Flog m2, Fopen_status (process_pid ev),
         Flog (Attempting (process_pid ev) uid gid),
         Change_cgroup uid gid (process_pid ev) CGFLAG_USECACHE,
         Flog (if change_cgroup en uid gid (process_pid ev) \<noteq> 0
               then FAILED (change_cgroup en uid gid (process_pid ev)) else OK)])"
proof (cases "what ev = PROC_EVENT_UID")
  case True
  with assms(1) process_event_uid [OF assms(3,4) refl refl] show ?thesis
    by (simp add: cgre_handle_msg_def Let_def)
next
  case False
  with assms(2) have g: "what ev = PROC_EVENT_GID" by simp
  with False assms(1) process_event_gid [OF assms(3,4) refl refl] show ?thesis
    by (simp add: cgre_handle_msg_def Let_def)
qed

lemma receive_loop_diverges:
  assumes "frame_loop en (buff_of r) 0 (size_t_of (recvfrom r)) tr = None"
    and "size_t_of (recvfrom r) \<noteq> ENOBUFS" and "\<not> size_t_of (recvfrom r) < 1"
  shows "receive_loop en (r # rs) tr = None"
  using assms by (simp add: Let_def)

subsection \<open>Reading the buffer\<close>

lemma byte_at_append_right: "length xs = k \<Longrightarrow> byte_at (xs @ ys) (k + i) = byte_at ys i"
  by (auto simp: byte_at_def nth_append)

lemma byte_at_append_left: "i < length xs \<Longrightarrow> byte_at (xs @ ys) i = byte_at xs i"
  by (simp add: byte_at_def nth_append)

lemma le16_append_right: "length xs = k \<Longrightarrow> le16 (xs @ ys) (k + i) = le16 ys i"
  using byte_at_append_right [of xs k ys i] byte_at_append_right [of xs k ys "i + 1"]
  by (simp add: le16_def add.assoc)

lemma le32_append_right: "length xs = k \<Longrightarrow> le32 (xs @ ys) (k + i) = le32 ys i"
  using le16_append_right [of xs k ys i] le16_append_right [of xs k ys "i + 2"]
  by (simp add: le32_def add.assoc)

lemma u32_at_append_right: "length xs = k \<Longrightarrow> u32_at (xs @ ys) (k + i) = u32_at ys i"
  by (simp add: u32_at_def le32_append_right)

lemma nlmsg_len_append_right:
  "length xs = k \<Longrightarrow> nlmsg_len (xs @ ys) (k + i) = nlmsg_len ys i"
  by (simp add: nlmsg_len_def le32_append_right)

lemma nlmsg_type_append_right:
  "length xs = k \<Longrightarrow> nlmsg_type (xs @ ys) (k + i) = nlmsg_type ys i"
  using le16_append_right [of xs k ys "i + 4"] by (simp add: nlmsg_type_def add.assoc)

lemma proc_event_at_append_right:
  "length xs = k \<Longrightarrow> proc_event_at (xs @ ys) (k + i) = proc_event_at ys i"
  using u32_at_append_right [of xs k ys]
  by (simp add: proc_event_at_def add.assoc)

lemma handle_msg_append_right:
  "length xs = k \<Longrightarrow> cgre_handle_msg en (xs @ ys) (k + c) = cgre_handle_msg en ys c"
  using proc_event_at_append_right [of xs k ys "cn_data c"]
  by (simp add: cgre_handle_msg_def cn_data_def add.assoc)

lemma le16_u32le: "le16 (u32le n @ ys) 0 = n mod 65536"
proof -
  have "unat (of_nat n :: byte) = n mod 256" "unat (of_nat (n div 256) :: byte) = n div 256 mod 256"
    by (simp_all add: unat_of_nat)
  moreover have "n mod 256 + 256 * (n div 256 mod 256) = n mod 65536"
    using mod_mult2_eq [of n 256 256] by simp
  ultimately show ?thesis by (simp add: le16_def byte_at_def u32le_def)
qed

lemma le32_u32le: "le32 (u32le n @ ys) 0 = n mod 2 ^ 32"
proof -
  have b: "unat (of_nat m :: byte) = m mod 256" for m by (simp add: unat_of_nat)
  have "le32 (u32le n @ ys) 0 =
      (n mod 256 + 256 * (n div 256 mod 256)) +
      65536 * (n div 65536 mod 256 + 256 * (n div 16777216 mod 256))"
    by (simp add: le32_def le16_def byte_at_def u32le_def b)
  also have "n mod 256 + 256 * (n div 256 mod 256) = n mod 65536"
    using mod_mult2_eq [of n 256 256] by simp
  also have "n div 65536 mod 256 + 256 * (n div 16777216 mod 256) = n div 65536 mod 65536"
    using mod_mult2_eq [of "n div 65536" 256 256] div_mult2_eq [of n 65536 256] by simp
  also have "n mod 65536 + 65536 * (n div 65536 mod 65536) = n mod 4294967296"
    using mod_mult2_eq [of n 65536 65536] by simp
  finally show ?thesis by simp
qed

lemma length_u32le: "length (u32le n) = 4"
  by (simp add: u32le_def)

lemma length_event_frame: "length (event_frame ty wh pid tgid r e) = 68"
  by (simp add: event_frame_def length_u32le)

lemma u32_at_u32le: "length xs = k \<Longrightarrow> u32_at (xs @ u32le n @ ys) k = of_nat n"
proof -
  assume "length xs = k"
  then have "le32 (xs @ u32le n @ ys) (k + 0) = n mod 2 ^ 32"
    by (simp only: le32_append_right le32_u32le)
  then have "u32_at (xs @ u32le n @ ys) k = (of_nat (n mod 2 ^ 32) :: u32)"
    by (simp add: u32_at_def)
  also have "\<dots> = of_nat n"
    by (simp add: word_of_nat_eq_iff take_bit_eq_mod)
  finally show ?thesis .
qed

lemma event_frame_len: "nlmsg_len (event_frame ty wh pid tgid r e @ ys) 0 = 68"
  using le32_u32le [of 68] by (simp add: nlmsg_len_def event_frame_def)

lemma event_frame_type: "nlmsg_type (event_frame ty wh pid tgid r e @ ys) 0 = ty mod 65536"
  using le16_append_right [of "u32le 68" 4 _ 0] le16_u32le [of ty]
  by (simp add: nlmsg_type_def event_frame_def length_u32le)

lemma event_frame_event:
  "proc_event_at (event_frame ty wh pid tgid r e @ ys) (cn_data (NLMSG_DATA 0)) =
     \<lparr>what = of_nat wh, process_pid = of_nat pid, process_tgid = of_nat tgid,
      id_r = of_nat r, id_e = of_nat e\<rparr>"
proof -
  let ?h = "u32le 68 @ u32le ty @ replicate 28 0"
  let ?m = "replicate 12 (0::byte)"
  let ?b = "event_frame ty wh pid tgid r e @ ys"
  have "u32_at (?h @ u32le wh @ (?m @ u32le pid @ u32le tgid @ u32le r @ u32le e @ ys)) 36
      = of_nat wh"
    by (rule u32_at_u32le) (simp add: length_u32le)
  then have w: "u32_at ?b 36 = of_nat wh" by (simp add: event_frame_def)
  have "u32_at ((?h @ u32le wh @ ?m) @ u32le pid @ (u32le tgid @ u32le r @ u32le e @ ys)) 52
      = of_nat pid"
    by (rule u32_at_u32le) (simp add: length_u32le)
  then have p: "u32_at ?b 52 = of_nat pid" by (simp add: event_frame_def)
  have "u32_at ((?h @ u32le wh @ ?m @ u32le pid) @ u32le tgid @ (u32le r @ u32le e @ ys)) 56
      = of_nat tgid"
    by (rule u32_at_u32le) (simp add: length_u32le)
  then have t: "u32_at ?b 56 = of_nat tgid" by (simp add: event_frame_def)
  have "u32_at ((?h @ u32le wh @ ?m @ u32le pid @ u32le tgid) @ u32le r @ (u32le e @ ys)) 60
      = of_nat r"
    by (rule u32_at_u32le) (simp add: length_u32le)
  then have r: "u32_at ?b 60 = of_nat r" by (simp add: event_frame_def)
  have "u32_at ((?h @ u32le wh @ ?m @ u32le pid @ u32le tgid @ u32le r) @ u32le e @ ys) 64
      = of_nat e"
    by (rule u32_at_u32le) (simp add: length_u32le)
  then have e: "u32_at ?b 64 = of_nat e" by (simp add: event_frame_def)
  from w p t r e show ?thesis
    by (simp add: proc_event_at_def cn_data_def NLMSG_DATA_def)
qed

lemma scan_status_100:
  "scan_status ''Gid:'' old status_100 = 40" "scan_status ''Uid:'' old status_100 = 20"
  by code_simp+

lemma nlmsg_len_second: "length xs = k \<Longrightarrow> nlmsg_len (xs @ ys) k = nlmsg_len ys 0"
  using nlmsg_len_append_right [of xs k ys 0] by simp

lemma nlmsg_type_second: "length xs = k \<Longrightarrow> nlmsg_type (xs @ ys) k = nlmsg_type ys 0"
  using nlmsg_type_append_right [of xs k ys 0] by simp

lemma handle_msg_second:
  "length xs = k \<Longrightarrow>
   cgre_handle_msg en (xs @ ys) (NLMSG_DATA k) = cgre_handle_msg en ys (NLMSG_DATA 0)"
  using handle_msg_append_right [of xs k en ys 16] by (simp add: NLMSG_DATA_def)

lemma handle_uid_frame:
  "cgre_handle_msg (world (Some status_100) ret)
     (event_frame ty 4 100 100 1000 2000 @ ys) (NLMSG_DATA 0) =
   (ret, [Flog UID_Event, Flog (UID_fields 100 100 1000 2000), Fopen_status 100,
          Flog (Attempting 100 2000 40), Change_cgroup 2000 40 100 CGFLAG_USECACHE,
          Flog (if ret \<noteq> 0 then FAILED ret else OK)])"
proof -
  let ?ev = "\<lparr>what = 4, process_pid = 100, process_tgid = 100, id_r = 1000, id_e = 2000\<rparr>"
  have "cgre_process_event (world (Some status_100) ret) ?ev PROC_EVENT_UID =
      (ret, [Fopen_status 100, Flog (Attempting 100 2000 40),
             Change_cgroup 2000 40 100 CGFLAG_USECACHE,
             Flog (if ret \<noteq> 0 then FAILED ret else OK)])"
    using process_event_uid [of "world (Some status_100) ret" ?ev status_100, OF _ _ refl refl]
    by (simp add: world_def scan_status_100)
  then show ?thesis
    by (simp add: cgre_handle_msg_def event_frame_event PROC_EVENT_UID_def)
qed

lemma handle_gid_frame:
  "cgre_handle_msg (world (Some status_100) ret)
     (event_frame ty 64 100 100 1000 2000 @ ys) (NLMSG_DATA 0) =
   (ret, [Flog GID_Event, Flog (GID_fields 100 100 1000 2000), Fopen_status 100,
          Flog (Attempting 100 20 2000), Change_cgroup 20 2000 100 CGFLAG_USECACHE,
          Flog (if ret \<noteq> 0 then FAILED ret else OK)])"
proof -
  let ?ev = "\<lparr>what = 64, process_pid = 100, process_tgid = 100, id_r = 1000, id_e = 2000\<rparr>"
  have "cgre_process_event (world (Some status_100) ret) ?ev PROC_EVENT_GID =
      (ret, [Fopen_status 100, Flog (Attempting 100 20 2000),
             Change_cgroup 20 2000 100 CGFLAG_USECACHE,
             Flog (if ret \<noteq> 0 then FAILED ret else OK)])"
    using process_event_gid [of "world (Some status_100) ret" ?ev status_100, OF _ _ refl refl]
    by (simp add: world_def scan_status_100)
  then show ?thesis
    by (simp add: cgre_handle_msg_def event_frame_event PROC_EVENT_UID_def PROC_EVENT_GID_def)
qed

lemmas event_frame_alone =
  event_frame_len [where ys = "[]", simplified]
  event_frame_type [where ys = "[]", simplified]
  event_frame_event [where ys = "[]", simplified]
  handle_uid_frame [where ys = "[]", simplified]
  handle_gid_frame [where ys = "[]", simplified]

lemma two_frames_facts:
  "length two_frames = 136"
  "nlmsg_len two_frames 0 = 68" "nlmsg_len two_frames 68 = 68"
  "nlmsg_type two_frames 0 = 0" "nlmsg_type two_frames 68 = 3"
  "cgre_handle_msg (world (Some status_100) ret) two_frames (NLMSG_DATA 0) =
   (ret, [Flog UID_Event, Flog (UID_fields 100 100 1000 2000), Fopen_status 100,
          Flog (Attempting 100 2000 40), Change_cgroup 2000 40 100 CGFLAG_USECACHE,
          Flog (if ret \<noteq> 0 then FAILED ret else OK)])"
  "cgre_handle_msg (world (Some status_100) ret) two_frames (NLMSG_DATA 68) =
   (ret, [Flog GID_Event, Flog (GID_fields 100 100 1000 2000), Fopen_status 100,
          Flog (Attempting 100 20 2000), Change_cgroup 20 2000 100 CGFLAG_USECACHE,
          Flog (if ret \<noteq> 0 then FAILED ret else OK)])"
  unfolding two_frames_def
  by (simp_all add: length_event_frame event_frame_len event_frame_type handle_uid_frame
      nlmsg_len_second nlmsg_type_second handle_msg_second event_frame_alone)

lemma done_first_facts:
  "length done_first = 136"
  "nlmsg_len done_first 0 = 68" "nlmsg_len done_first 68 = 68"
  "nlmsg_type done_first 0 = 3" "nlmsg_type done_first 68 = 0"
  "cgre_handle_msg (world (Some status_100) ret) done_first (NLMSG_DATA 0) =
   (ret, [Flog UID_Event, Flog (UID_fields 100 100 1000 2000), Fopen_status 100,
          Flog (Attempting 100 2000 40), Change_cgroup 2000 40 100 CGFLAG_USECACHE,
          Flog (if ret \<noteq> 0 then FAILED ret else OK)])"
  "cgre_handle_msg (world (Some status_100) ret) done_first (NLMSG_DATA 68) =
   (ret, [Flog GID_Event, Flog (GID_fields 100 100 1000 2000), Fopen_status 100,
          Flog (Attempting 100 20 2000), Change_cgroup 20 2000 100 CGFLAG_USECACHE,
          Flog (if ret \<noteq> 0 then FAILED ret else OK)])"
  unfolding done_first_def
  by (simp_all add: length_event_frame event_frame_len event_frame_type handle_uid_frame
      nlmsg_len_second nlmsg_type_second handle_msg_second event_frame_alone)

lemma receive_loop_batch:
  assumes "frame_loop en buff 0 (length buff) tr = Some (Next_receive, tr')"
    and "length buff < 2 ^ 64" and "length buff \<noteq> ENOBUFS" and "0 < length buff"
  shows "receive_loop en (Recv_ok buff # rs) tr = receive_loop en rs tr'"
  using assms by (simp add: Let_def size_t_of_def nat_mod_distrib nat_power_eq)

lemma receive_loop_exit:
  assumes "frame_loop en buff 0 (length buff) tr = Some (Close_and_exit, tr')"
    and "length buff < 2 ^ 64" and "length buff \<noteq> ENOBUFS" and "0 < length buff"
  shows "receive_loop en (Recv_ok buff # rs) tr = Some (Returned (- 1), tr' @ [Close_socket])"
  using assms by (simp add: Let_def size_t_of_def nat_mod_distrib nat_power_eq)

lemma proc_event_at_second:
  "length xs = k \<Longrightarrow>
   proc_event_at (xs @ ys) (cn_data (NLMSG_DATA k)) = proc_event_at ys (cn_data (NLMSG_DATA 0))"
  using proc_event_at_append_right [of xs k ys 36]
  by (simp add: cn_data_def NLMSG_DATA_def add.commute)

lemma two_frames_events:
  "proc_event_at two_frames (cn_data (NLMSG_DATA 0)) = uid_event"
  "proc_event_at two_frames (cn_data (NLMSG_DATA 68)) = uid_event\<lparr>what := PROC_EVENT_GID\<rparr>"
  unfolding two_frames_def
  by (simp_all add: event_frame_event proc_event_at_second length_event_frame
      event_frame_alone uid_event_def PROC_EVENT_UID_def PROC_EVENT_GID_def)

lemma two_frames_next:
  "NLMSG_NEXT two_frames 0 = 68" "NLMSG_NEXT_len two_frames 0 136 = 68"
  by (simp_all add: NLMSG_NEXT_def NLMSG_NEXT_len_def NLMSG_ALIGN_def two_frames_facts)

section \<open>The claims\<close>

text \<open>
  In the claims below a \<^emph>\<open>line\<close> of a status record is one read of the scan, an element of
  \<open>status_reads\<close>; by \<open>status_reads_lines\<close> these are the lines of the record, each with
  its newline, when every line is shorter than 4095 characters.
\<close>

text \<open>
  C1, as amended. For every UID_CHANGE event with pid 100, tgid 100, ruid 1000 and euid
  2000: if the status record of pid 100 opens, the line buffer is allocated, and the first
  line of the record that begins with \<^verbatim>\<open>Gid:\<close> is \<^verbatim>\<open>Gid: 30 40 30 30\<close>, then processing
  the event issues exactly one reassignment request, with uid 2000, gid 40 and pid 100.
\<close>

theorem uid_change_dispatch:
  assumes "what ev = PROC_EVENT_UID"
    and "process_pid ev = 100" and "process_tgid ev = 100"
    and "id_r ev = 1000" and "id_e ev = 2000"
    and "proc_status en 100 = Some f" and "calloc_errno en = None"
    and "status_reads f = pre @ l # rest"
    and "\<forall>b \<in> set pre. \<not> strncmp4_eq b ''Gid:''"
    and "l = ''Gid: 30 40 30 30'' \<or> l = ''Gid: 30 40 30 30'' @ [newline]"
  shows "requests (snd (cgre_process_event en ev PROC_EVENT_UID)) =
           [Change_cgroup 2000 40 100 CGFLAG_USECACHE] \<and>
         (proc_event_at buff (cn_data cn_hdr) = ev \<longrightarrow>
            requests (snd (cgre_handle_msg en buff cn_hdr)) =
              [Change_cgroup 2000 40 100 CGFLAG_USECACHE])"
proof -
  from assms(10) have m: "strncmp4_eq l ''Gid:''" by (auto simp: strncmp4_eq_def)
  from assms(10) have "sscanf_d 4 (drop 5 l) = [30, 40, 30, 30]"
    using sscanf_30_40 sscanf_30_40_nl by auto
  with scan_values_first [OF assms(8,9) m]
  have "scan_status ''Gid:'' (stack_egid en) f = 40"
    by (simp add: scan_status_def second_or_def)
  with process_event_uid [of en ev f, OF _ assms(7) refl refl] assms(2,5,6)
  have p: "requests (snd (cgre_process_event en ev PROC_EVENT_UID)) =
      [Change_cgroup 2000 40 100 CGFLAG_USECACHE]"
    by (simp add: requests_def)
  with assms(1) show ?thesis
    by (auto simp: cgre_handle_msg_def Let_def requests_def)
qed

text \<open>A record with a name line before its one Gid line, and the event in a frame.\<close>

theorem uid_change_dispatch_witness:
  "requests (snd (cgre_process_event
      (world (Some (''Name: init'' @ [newline] @ ''Gid: 30 40 30 30'' @ [newline])) 0)
      uid_event PROC_EVENT_UID)) =
     [Change_cgroup 2000 40 100 CGFLAG_USECACHE] \<and>
   requests (snd (cgre_handle_msg
      (world (Some (''Name: init'' @ [newline] @ ''Gid: 30 40 30 30'' @ [newline])) 0)
      (event_frame 3 4 100 100 1000 2000) (NLMSG_DATA 0))) =
     [Change_cgroup 2000 40 100 CGFLAG_USECACHE]"
proof -
  have r: "status_reads (''Name: init'' @ [newline] @ ''Gid: 30 40 30 30'' @ [newline]) =
      [''Name: init'' @ [newline]] @ (''Gid: 30 40 30 30'' @ [newline]) # []"
    by code_simp
  have n: "\<forall>b \<in> set [''Name: init'' @ [newline]]. \<not> strncmp4_eq b ''Gid:''"
    by (simp add: strncmp4_eq_def)
  have e: "proc_event_at (event_frame 3 4 100 100 1000 2000) (cn_data (NLMSG_DATA 0)) = uid_event"
    by (simp add: event_frame_alone uid_event_def PROC_EVENT_UID_def)
  from uid_change_dispatch
    [of uid_event "world (Some (''Name: init'' @ [newline] @ ''Gid: 30 40 30 30'' @ [newline])) 0"
      _ _ _ _ "event_frame 3 4 100 100 1000 2000" "NLMSG_DATA 0", OF _ _ _ _ _ _ _ r n]
    e
  show ?thesis by (simp add: uid_event_def world_def)
qed

text \<open>
  C1 as stated fails: a record that contains the line \<^verbatim>\<open>Gid: 30 40 30 30\<close> after
  another line that begins with \<^verbatim>\<open>Gid:\<close> gives the request the gid of the earlier line.
\<close>

theorem uid_change_dispatch_counterexample:
  "process_pid uid_event = 100 \<and> process_tgid uid_event = 100 \<and>
   id_r uid_event = 1000 \<and> id_e uid_event = 2000 \<and>
   proc_status (world (Some (''Gid: 1 2 3 4'' @ [newline] @ ''Gid: 30 40 30 30'' @ [newline])) 0) 100 =
     Some (''Gid: 1 2 3 4'' @ [newline] @ ''Gid: 30 40 30 30'' @ [newline]) \<and>
   ''Gid: 30 40 30 30'' @ [newline] \<in>
     set (status_reads (''Gid: 1 2 3 4'' @ [newline] @ ''Gid: 30 40 30 30'' @ [newline])) \<and>
   requests (snd (cgre_process_event
      (world (Some (''Gid: 1 2 3 4'' @ [newline] @ ''Gid: 30 40 30 30'' @ [newline])) 0)
      uid_event PROC_EVENT_UID)) =
     [Change_cgroup 2000 2 100 CGFLAG_USECACHE]"
  by code_simp

text \<open>
  C2. The claim: an accepted event whose status record opens but has no line that begins
  with the expected label is dropped, and no reassignment request is issued. The code
  does not do so: the loop ends at the end of the file with nothing stored in \<^verbatim>\<open>egid\<close>,
  and the second \<^verbatim>\<open>switch\<close> passes the variable's indeterminate value to libcgroup. Here
  the record of pid 100 has no Gid line, and the request carries the gid \<^verbatim>\<open>0xDEAD\<close> that
  the variable happened to hold.
\<close>

theorem label_missing_still_dispatches:
  "proc_status (world (Some (''Name: init'' @ [newline] @ ''Uid: 0 0 0 0'' @ [newline])) 0) 100 =
     Some (''Name: init'' @ [newline] @ ''Uid: 0 0 0 0'' @ [newline]) \<and>
   list_all (\<lambda>b. \<not> strncmp4_eq b ''Gid:'')
     (status_reads (''Name: init'' @ [newline] @ ''Uid: 0 0 0 0'' @ [newline])) \<and>
   requests (snd (cgre_process_event
      (world (Some (''Name: init'' @ [newline] @ ''Uid: 0 0 0 0'' @ [newline])) 0)
      uid_event PROC_EVENT_UID)) =
     [Change_cgroup 2000 0xDEAD 100 CGFLAG_USECACHE]"
  by code_simp

text \<open>
  C3, as amended. For every successful receive whose buffer consists of \<open>N\<close> back-to-back
  frames (each declares a length that covers its header and is a multiple of 4, and the
  lengths add up to the received length), none of them of the type no-op, error or
  overrun, none but possibly the last of the type done, and none whose handling returns a
  negative code: the frame loop handles exactly the \<open>N\<close> frames, in buffer order, each at
  the offset where the declared length of the one before it ends, and the loop goes on to
  the next receive.
\<close>

theorem well_formed_receive_handled:
  assumes "back_to_back buff 0 lens"
    and "length buff = sum_list lens"
    and "length buff < 2 ^ 64"
    and "\<forall>nlh \<in> set (frame_offsets 0 lens).
           nlmsg_type buff nlh \<noteq> NLMSG_NOOP \<and> nlmsg_type buff nlh \<noteq> NLMSG_ERROR \<and>
           nlmsg_type buff nlh \<noteq> NLMSG_OVERRUN"
    and "\<forall>nlh \<in> set (butlast (frame_offsets 0 lens)). nlmsg_type buff nlh \<noteq> NLMSG_DONE"
    and "\<forall>nlh \<in> set (frame_offsets 0 lens).
           0 \<le> fst (cgre_handle_msg en buff (NLMSG_DATA nlh))"
  shows "length (frame_offsets 0 lens) = length lens \<and>
         frame_loop en buff 0 (length buff) tr =
           Some (Next_receive, tr @ handled en buff (frame_offsets 0 lens)) \<and>
         receive_loop en (Recv_ok buff # rs) tr =
           receive_loop en rs (tr @ handled en buff (frame_offsets 0 lens))"
proof -
  have n: "length (frame_offsets off lens) = length lens" for off
    by (induction lens arbitrary: off) simp_all
  from assms(2,3) have s: "sum_list lens < 2 ^ 64" by simp
  note fl = frame_loop_back_to_back [OF assms(1) s assms(4,5,6), of tr, folded assms(2)]
  show ?thesis
  proof (cases lens)
    case Nil
    with assms(2) have "buff = []" by simp
    with Nil fl show ?thesis by (simp add: handled_def Let_def size_t_of_def ENOBUFS_def)
  next
    case (Cons l ls)
    with assms(1,2) have pos: "0 < length buff" by simp
    from back_to_back_sum_mod [OF assms(1)] assms(2) have "length buff mod 4 = 0" by simp
    then have ne: "length buff \<noteq> ENOBUFS" by (auto simp: ENOBUFS_def)
    from receive_loop_batch [OF fl assms(3) ne pos] fl n show ?thesis by simp
  qed
qed

text \<open>A UID_CHANGE frame and a GID_CHANGE frame of type done in one receive.\<close>

theorem well_formed_receive_handled_witness:
  "receive_loop (world (Some status_100) 0) [Recv_ok two_frames] [] =
     Some (Listening,
       [Flog UID_Event, Flog (UID_fields 100 100 1000 2000), Fopen_status 100,
        Flog (Attempting 100 2000 40), Change_cgroup 2000 40 100 CGFLAG_USECACHE, Flog OK,
        Flog GID_Event, Flog (GID_fields 100 100 1000 2000), Fopen_status 100,
        Flog (Attempting 100 20 2000), Change_cgroup 20 2000 100 CGFLAG_USECACHE, Flog OK])"
proof -
  have "receive_loop (world (Some status_100) 0) (Recv_ok two_frames # []) [] =
      receive_loop (world (Some status_100) 0) []
        ([] @ handled (world (Some status_100) 0) two_frames (frame_offsets 0 [68, 68]))"
    using well_formed_receive_handled
      [of two_frames "[68, 68]" "world (Some status_100) 0" "[]" "[]"]
    by (simp add: two_frames_facts NLMSG_NOOP_def NLMSG_ERROR_def NLMSG_OVERRUN_def
        NLMSG_DONE_def)
  then show ?thesis by (simp add: handled_def two_frames_facts)
qed

text \<open>
  C3 as stated fails: a frame of type \<^verbatim>\<open>NLMSG_DONE\<close> ends the batch. In a receive of two
  well-formed frames whose first has that type (the type the kernel gives its process
  events), only the first frame is handled.
\<close>

theorem well_formed_receive_handled_counterexample:
  "back_to_back done_first 0 [68, 68] \<and> length done_first = 68 + 68 \<and>
   nlmsg_type done_first 0 = NLMSG_DONE \<and>
   receive_loop (world (Some status_100) 0) [Recv_ok done_first] [] =
     Some (Listening, handled (world (Some status_100) 0) done_first [0]) \<and>
   handled (world (Some status_100) 0) done_first [0] =
     [Flog UID_Event, Flog (UID_fields 100 100 1000 2000), Fopen_status 100,
      Flog (Attempting 100 2000 40), Change_cgroup 2000 40 100 CGFLAG_USECACHE, Flog OK] \<and>
   handled (world (Some status_100) 0) done_first [68] =
     [Flog GID_Event, Flog (GID_fields 100 100 1000 2000), Fopen_status 100,
      Flog (Attempting 100 20 2000), Change_cgroup 20 2000 100 CGFLAG_USECACHE, Flog OK]"
proof -
  have "frame_loop (world (Some status_100) 0) done_first 0 (length done_first) [] =
      Some (Next_receive,
        [] @ snd (cgre_handle_msg (world (Some status_100) 0) done_first (NLMSG_DATA 0)))"
    by (rule frame_loop_done)
      (simp_all add: done_first_facts NLMSG_OK_def NLMSG_NOOP_def NLMSG_ERROR_def
        NLMSG_OVERRUN_def NLMSG_DONE_def)
  then have "receive_loop (world (Some status_100) 0) (Recv_ok done_first # []) [] =
      receive_loop (world (Some status_100) 0) []
        ([] @ snd (cgre_handle_msg (world (Some status_100) 0) done_first (NLMSG_DATA 0)))"
    by (rule receive_loop_batch) (simp_all add: done_first_facts ENOBUFS_def)
  then show ?thesis
    by (simp add: handled_def done_first_facts NLMSG_DONE_def)
qed

text \<open>
  C4, as amended. For every accepted event in the receive loop whose status record opens
  (and whose line buffer is allocated), one request goes to the policy engine, and a
  non-zero result code \<open>r\<close> of it is logged. A positive code does not end the daemon loop:
  the frame loop goes on to the next frame, or, after a frame of type done, the \<^verbatim>\<open>for\<close>
  loop goes on to the next receive. A negative code does end it: the frame loop is left
  for the label \<^verbatim>\<open>close_and_exit\<close>, the socket is closed and the function returns -1.

  The event is in the receive loop: the function has come to a receive that stored
  \<open>buff\<close>, with the trace \<open>tr0\<close> and the receives \<open>rs\<close> still to come, and the frame loop of
  that receive has come to the frame at \<open>nlh\<close> with \<open>len\<close> bytes left and the trace \<open>tr\<close>.
\<close>

theorem policy_failure_outcome:
  assumes "NLMSG_OK buff nlh len"
    and "nlmsg_type buff nlh \<noteq> NLMSG_NOOP"
    and "nlmsg_type buff nlh \<noteq> NLMSG_ERROR"
    and "nlmsg_type buff nlh \<noteq> NLMSG_OVERRUN"
    and "ev = proc_event_at buff (cn_data (NLMSG_DATA nlh))"
    and "what ev = PROC_EVENT_UID \<or> what ev = PROC_EVENT_GID"
    and "proc_status en (process_pid ev) = Some f"
    and "calloc_errno en = None"
    and "h = snd (cgre_handle_msg en buff (NLMSG_DATA nlh))"
    and "0 < length buff" and "length buff < 2 ^ 64" and "length buff \<noteq> ENOBUFS"
    and "frame_loop en buff 0 (length buff) tr0 = frame_loop en buff nlh len tr"
    and "cgre_create_netlink_socket_process_msg en recvs =
           receive_loop en (Recv_ok buff # rs) tr0"
  shows "\<exists>uid gid r.
     requests h = [Change_cgroup uid gid (process_pid ev) CGFLAG_USECACHE] \<and>
     r = change_cgroup en uid gid (process_pid ev) \<and>
     (r \<noteq> 0 \<longrightarrow> last h = Flog (FAILED r)) \<and>
     (0 < r \<longrightarrow>
        frame_loop en buff nlh len tr =
          (if nlmsg_type buff nlh = NLMSG_DONE then Some (Next_receive, tr @ h)
           else frame_loop en buff (NLMSG_NEXT buff nlh) (NLMSG_NEXT_len buff nlh len) (tr @ h)) \<and>
        (nlmsg_type buff nlh = NLMSG_DONE \<longrightarrow>
           receive_loop en (Recv_ok buff # rs) tr0 = receive_loop en rs (tr @ h) \<and>
           cgre_create_netlink_socket_process_msg en recvs = receive_loop en rs (tr @ h))) \<and>
     (r < 0 \<longrightarrow>
        frame_loop en buff nlh len tr = Some (Close_and_exit, tr @ h) \<and>
        receive_loop en (Recv_ok buff # rs) tr0 =
          Some (Returned (- 1), tr @ h @ [Close_socket]) \<and>
        cgre_create_netlink_socket_process_msg en recvs =
          Some (Returned (- 1), tr @ h @ [Close_socket]))"
proof -
  from handle_msg_dispatch [OF assms(5,6,7,8)] obtain uid gid m1 m2 where
    hm: "cgre_handle_msg en buff (NLMSG_DATA nlh) =
       (change_cgroup en uid gid (process_pid ev),
        [Flog m1, Flog m2, Fopen_status (process_pid ev),
         Flog (Attempting (process_pid ev) uid gid),
         Change_cgroup uid gid (process_pid ev) CGFLAG_USECACHE,
         Flog (if change_cgroup en uid gid (process_pid ev) \<noteq> 0
               then FAILED (change_cgroup en uid gid (process_pid ev)) else OK)])"
    by blast
  let ?r = "change_cgroup en uid gid (process_pid ev)"
  let ?next = "frame_loop en buff (NLMSG_NEXT buff nlh) (NLMSG_NEXT_len buff nlh len) (tr @ h)"
  from hm have ret: "fst (cgre_handle_msg en buff (NLMSG_DATA nlh)) = ?r" by simp
  from hm assms(9) have req:
    "requests h = [Change_cgroup uid gid (process_pid ev) CGFLAG_USECACHE]"
    by (simp add: requests_def)
  from hm assms(9) have lg: "?r \<noteq> 0 \<longrightarrow> last h = Flog (FAILED ?r)" by simp
  have pos: "0 < ?r \<longrightarrow>
        frame_loop en buff nlh len tr =
          (if nlmsg_type buff nlh = NLMSG_DONE then Some (Next_receive, tr @ h) else ?next) \<and>
        (nlmsg_type buff nlh = NLMSG_DONE \<longrightarrow>
           receive_loop en (Recv_ok buff # rs) tr0 = receive_loop en rs (tr @ h) \<and>
           cgre_create_netlink_socket_process_msg en recvs = receive_loop en rs (tr @ h))"
  proof
    assume "0 < ?r"
    with ret have "0 \<le> fst (cgre_handle_msg en buff (NLMSG_DATA nlh))" by simp
    note fl = frame_loop_handled [OF assms(1-4) this, of tr, folded assms(9)]
    have "receive_loop en (Recv_ok buff # rs) tr0 = receive_loop en rs (tr @ h)"
      if d: "nlmsg_type buff nlh = NLMSG_DONE"
    proof -
      from fl d assms(13)
      have "frame_loop en buff 0 (length buff) tr0 = Some (Next_receive, tr @ h)" by simp
      then show ?thesis by (rule receive_loop_batch [OF _ assms(11,12,10)])
    qed
    with fl assms(14) show "frame_loop en buff nlh len tr =
          (if nlmsg_type buff nlh = NLMSG_DONE then Some (Next_receive, tr @ h) else ?next) \<and>
        (nlmsg_type buff nlh = NLMSG_DONE \<longrightarrow>
           receive_loop en (Recv_ok buff # rs) tr0 = receive_loop en rs (tr @ h) \<and>
           cgre_create_netlink_socket_process_msg en recvs = receive_loop en rs (tr @ h))"
      by simp
  qed
  have neg: "?r < 0 \<longrightarrow>
        frame_loop en buff nlh len tr = Some (Close_and_exit, tr @ h) \<and>
        receive_loop en (Recv_ok buff # rs) tr0 =
          Some (Returned (- 1), tr @ h @ [Close_socket]) \<and>
        cgre_create_netlink_socket_process_msg en recvs =
          Some (Returned (- 1), tr @ h @ [Close_socket])"
  proof
    assume "?r < 0"
    with ret have "fst (cgre_handle_msg en buff (NLMSG_DATA nlh)) < 0" by simp
    note fl = frame_loop_exit [OF assms(1-4) this, of tr, folded assms(9)]
    with assms(13)
    have "frame_loop en buff 0 (length buff) tr0 = Some (Close_and_exit, tr @ h)" by simp
    from receive_loop_exit [OF this assms(11,12,10), of rs]
    have "receive_loop en (Recv_ok buff # rs) tr0 =
        Some (Returned (- 1), tr @ h @ [Close_socket])" by simp
    with fl assms(14) show "frame_loop en buff nlh len tr = Some (Close_and_exit, tr @ h) \<and>
        receive_loop en (Recv_ok buff # rs) tr0 =
          Some (Returned (- 1), tr @ h @ [Close_socket]) \<and>
        cgre_create_netlink_socket_process_msg en recvs =
          Some (Returned (- 1), tr @ h @ [Close_socket])"
      by simp
  qed
  from req lg pos neg show ?thesis by blast
qed

text \<open>
  A result code of 5 at the second, last frame of the one receive of a run: the function
  is blocked in its second \<^verbatim>\<open>recvfrom\<close>. A result code of -1 at the first frame of the first
  of two receives: the function has returned -1.
\<close>

theorem policy_failure_outcome_witness:
  "cgre_create_netlink_socket_process_msg (world (Some status_100) 5) [Recv_ok two_frames] =
     Some (Listening,
       [Printf Sending_listen, Printf Sending_len, Printf Sent,
        Flog UID_Event, Flog (UID_fields 100 100 1000 2000), Fopen_status 100,
        Flog (Attempting 100 2000 40), Change_cgroup 2000 40 100 CGFLAG_USECACHE,
        Flog (FAILED 5),
        Flog GID_Event, Flog (GID_fields 100 100 1000 2000), Fopen_status 100,
        Flog (Attempting 100 20 2000), Change_cgroup 20 2000 100 CGFLAG_USECACHE,
        Flog (FAILED 5)]) \<and>
   cgre_create_netlink_socket_process_msg (world (Some status_100) (- 1))
       [Recv_ok two_frames, Recv_ok two_frames] =
     Some (Returned (- 1),
       [Printf Sending_listen, Printf Sending_len, Printf Sent,
        Flog UID_Event, Flog (UID_fields 100 100 1000 2000), Fopen_status 100,
        Flog (Attempting 100 2000 40), Change_cgroup 2000 40 100 CGFLAG_USECACHE,
        Flog (FAILED (- 1)), Close_socket])"
proof -
  let ?g = "uid_event\<lparr>what := PROC_EVENT_GID\<rparr>"
  let ?i = "[Printf Sending_listen, Printf Sending_len, Printf Sent]"
  let ?u = "\<lambda>r. [Flog UID_Event, Flog (UID_fields 100 100 1000 2000), Fopen_status 100,
        Flog (Attempting 100 2000 40), Change_cgroup 2000 40 100 CGFLAG_USECACHE,
        Flog (FAILED r)]"
  have w: "what uid_event = PROC_EVENT_UID \<or> what uid_event = PROC_EVENT_GID"
    "what ?g = PROC_EVENT_UID \<or> what ?g = PROC_EVENT_GID"
    by (simp_all add: uid_event_def)
  have p: "proc_status (world (Some status_100) r) (process_pid uid_event) = Some status_100"
    "proc_status (world (Some status_100) r) (process_pid ?g) = Some status_100" for r
    by (simp_all add: world_def uid_event_def)
  have c: "calloc_errno (world (Some status_100) r) = None" for r
    by (simp add: world_def)
  have k: "change_cgroup (world (Some status_100) r) uid gid pid = r" for r uid gid pid
    by (simp add: world_def)
  have t: "nlmsg_type two_frames 0 \<noteq> NLMSG_NOOP" "nlmsg_type two_frames 0 \<noteq> NLMSG_ERROR"
    "nlmsg_type two_frames 0 \<noteq> NLMSG_OVERRUN"
    "nlmsg_type two_frames 68 \<noteq> NLMSG_NOOP" "nlmsg_type two_frames 68 \<noteq> NLMSG_ERROR"
    "nlmsg_type two_frames 68 \<noteq> NLMSG_OVERRUN"
    by (simp_all add: two_frames_facts NLMSG_NOOP_def NLMSG_ERROR_def NLMSG_OVERRUN_def)
  have d: "nlmsg_type two_frames 0 \<noteq> NLMSG_DONE" "nlmsg_type two_frames 68 = NLMSG_DONE"
    by (simp_all add: two_frames_facts NLMSG_DONE_def)
  have o: "NLMSG_OK two_frames 0 (length two_frames)" "NLMSG_OK two_frames 68 68"
    by (simp_all add: NLMSG_OK_def two_frames_facts)
  have e: "uid_event = proc_event_at two_frames (cn_data (NLMSG_DATA 0))"
    "?g = proc_event_at two_frames (cn_data (NLMSG_DATA 68))"
    by (simp_all add: two_frames_events)
  have l: "0 < length two_frames" "length two_frames < 2 ^ 64" "length two_frames \<noteq> ENOBUFS"
    by (simp_all add: two_frames_facts ENOBUFS_def)
  have f: "cgre_create_netlink_socket_process_msg (world (Some status_100) r) (x # xs) =
      receive_loop (world (Some status_100) r) (x # xs) ?i" for r x xs
    by (simp add: cgre_create_netlink_socket_process_msg_def world_def)
  have "frame_loop (world (Some status_100) 5) two_frames 0 (length two_frames) ?i =
      frame_loop (world (Some status_100) 5) two_frames (NLMSG_NEXT two_frames 0)
        (NLMSG_NEXT_len two_frames 0 (length two_frames))
        (?i @ snd (cgre_handle_msg (world (Some status_100) 5) two_frames (NLMSG_DATA 0)))"
    by (rule frame_loop_next [OF o(1) t(1,2,3) _ d(1)]) (simp add: two_frames_facts)
  then have reach: "frame_loop (world (Some status_100) 5) two_frames 0 (length two_frames) ?i =
      frame_loop (world (Some status_100) 5) two_frames 68 68 (?i @ ?u 5)"
    by (simp add: two_frames_facts two_frames_next)
  from policy_failure_outcome
    [OF o(2) t(4,5,6) e(2) w(2) p(2) c refl l reach f [of 5 "Recv_ok two_frames" "[]"]] k d(2)
  have a: "cgre_create_netlink_socket_process_msg (world (Some status_100) 5)
      [Recv_ok two_frames] =
      receive_loop (world (Some status_100) 5) []
        ((?i @ ?u 5) @ snd (cgre_handle_msg (world (Some status_100) 5) two_frames
           (NLMSG_DATA 68)))"
    by auto
  from policy_failure_outcome
    [OF o(1) t(1,2,3) e(1) w(1) p(1) c refl l refl
      f [of "- 1" "Recv_ok two_frames" "[Recv_ok two_frames]"]] k
  have b: "cgre_create_netlink_socket_process_msg (world (Some status_100) (- 1))
      [Recv_ok two_frames, Recv_ok two_frames] =
      Some (Returned (- 1),
        ?i @ snd (cgre_handle_msg (world (Some status_100) (- 1)) two_frames (NLMSG_DATA 0))
          @ [Close_socket])"
    by auto
  from a b show ?thesis by (simp add: two_frames_facts)
qed

text \<open>
  C4 as stated fails for a negative code: with an engine that answers -1, the first event
  of the first receive ends the daemon loop. The second receive is never read; the
  function closes the socket and returns -1.
\<close>

theorem policy_failure_outcome_counterexample:
  "receive_loop (world (Some status_100) (- 1)) [Recv_ok two_frames, Recv_ok two_frames] [] =
   Some (Returned (- 1),
     [Flog UID_Event, Flog (UID_fields 100 100 1000 2000), Fopen_status 100,
      Flog (Attempting 100 2000 40), Change_cgroup 2000 40 100 CGFLAG_USECACHE,
      Flog (FAILED (- 1)), Close_socket])"
proof -
  have "frame_loop (world (Some status_100) (- 1)) two_frames 0 (length two_frames) [] =
      Some (Close_and_exit,
        [] @ snd (cgre_handle_msg (world (Some status_100) (- 1)) two_frames (NLMSG_DATA 0)))"
    by (rule frame_loop_exit)
      (simp_all add: two_frames_facts NLMSG_OK_def NLMSG_NOOP_def NLMSG_ERROR_def
        NLMSG_OVERRUN_def)
  then have "receive_loop (world (Some status_100) (- 1))
      (Recv_ok two_frames # [Recv_ok two_frames]) [] =
      Some (Returned (- 1),
        ([] @ snd (cgre_handle_msg (world (Some status_100) (- 1)) two_frames (NLMSG_DATA 0)))
          @ [Close_socket])"
    by (rule receive_loop_exit) (simp_all add: two_frames_facts ENOBUFS_def)
  then show ?thesis by (simp add: two_frames_facts)
qed

text \<open>
  C5. The claim: a frame of the no-op type is skipped, the loop advances past it to the
  next frame, and the batch terminates. The code does not advance: its \<^verbatim>\<open>continue\<close>
  goes back to the test \<^verbatim>\<open>NLMSG_OK(nlh, recv_len)\<close> with \<^verbatim>\<open>nlh\<close> and \<^verbatim>\<open>recv_len\<close> as they
  were, so the loop never leaves the frame. Here the receive is one no-op frame: the frame
  loop does not end, in any world and whatever receives follow.
\<close>

theorem noop_frame_never_left:
  "NLMSG_OK noop_frame 0 16 \<and>
   nlmsg_type noop_frame 0 = NLMSG_NOOP \<and>
   frame_loop en noop_frame 0 16 tr = None \<and>
   receive_loop en (Recv_ok noop_frame # rs) tr = None"
proof -
  have a: "NLMSG_OK noop_frame 0 16"
    and b: "nlmsg_type noop_frame 0 = NLMSG_NOOP"
    by code_simp+
  from frame_loop_noop [OF a b]
  have c: "frame_loop en noop_frame 0 16 tr = None" .
  have l: "size_t_of (int (length noop_frame)) = 16" by code_simp
  have "receive_loop en (Recv_ok noop_frame # rs) tr = None"
    by (rule receive_loop_diverges) (simp_all add: l c ENOBUFS_def)
  with a b c show ?thesis by simp
qed

text \<open>
  C6. For every receive that returns a zero or negative length, no frame is handled (the
  trace is as it was) and the loop goes on with the next receive. For a negative result the
  test \<^verbatim>\<open>recv_len < 1\<close> does not hold, \<^verbatim>\<open>recv_len\<close> being unsigned; the frame loop is then
  left at its first test, since the cleared buffer declares no frame.
\<close>

theorem failed_receive_retried:
  assumes "recvfrom r \<le> 0"
  shows "receive_loop en (r # rs) tr = receive_loop en rs tr"
proof (cases r)
  case Recv_error
  have "\<not> NLMSG_OK [] 0 (2 ^ 64 - 1)"
    by (simp add: NLMSG_OK_def nlmsg_len_def le32_def le16_def byte_at_def)
  then have "frame_loop en [] 0 (2 ^ 64 - 1) tr = Some (Next_receive, tr)"
    by (rule frame_loop_stop)
  moreover have "size_t_of (- 1) = 2 ^ 64 - 1" by (simp add: size_t_of_def)
  ultimately show ?thesis using Recv_error by (simp add: ENOBUFS_def)
next
  case (Recv_ok bs)
  with assms have "bs = []" by simp
  with Recv_ok show ?thesis by (simp add: size_t_of_def ENOBUFS_def)
qed

theorem failed_receive_retried_witness:
  "recvfrom Recv_error = - 1 \<and> recvfrom (Recv_ok []) = 0 \<and>
   receive_loop (world None 0) [Recv_error, Recv_ok []] [] = Some (Listening, [])"
proof -
  have "receive_loop (world None 0) [Recv_error, Recv_ok []] [] =
      receive_loop (world None 0) [Recv_ok []] []"
    by (rule failed_receive_retried) simp
  also have "\<dots> = receive_loop (world None 0) [] []"
    by (rule failed_receive_retried) simp
  finally show ?thesis by simp
qed

text \<open>
  C7. For every frame whose event kind is neither UID_CHANGE nor GID_CHANGE, handling the
  frame has no effect at all: it issues no reassignment request, opens no status record,
  and returns 0.
\<close>

theorem other_kind_ignored:
  assumes "what (proc_event_at buff (cn_data cn_hdr)) \<noteq> PROC_EVENT_UID"
    and "what (proc_event_at buff (cn_data cn_hdr)) \<noteq> PROC_EVENT_GID"
  shows "cgre_handle_msg en buff cn_hdr = (0, []) \<and>
         requests (snd (cgre_handle_msg en buff cn_hdr)) = [] \<and>
         lookups (snd (cgre_handle_msg en buff cn_hdr)) = []"
  using assms by (simp add: cgre_handle_msg_def Let_def requests_def lookups_def)

text \<open>A fork event (kind 1).\<close>

theorem other_kind_ignored_witness:
  "what (proc_event_at (event_frame 3 1 100 100 1000 2000) (cn_data (NLMSG_DATA 0))) = 1 \<and>
   cgre_handle_msg (world (Some status_100) 0) (event_frame 3 1 100 100 1000 2000)
     (NLMSG_DATA 0) = (0, [])"
proof -
  have w: "what (proc_event_at (event_frame 3 1 100 100 1000 2000) (cn_data (NLMSG_DATA 0))) = 1"
    by (simp add: event_frame_alone)
  then have "what (proc_event_at (event_frame 3 1 100 100 1000 2000) (cn_data (NLMSG_DATA 0)))
      \<noteq> PROC_EVENT_UID"
    and "what (proc_event_at (event_frame 3 1 100 100 1000 2000) (cn_data (NLMSG_DATA 0)))
      \<noteq> PROC_EVENT_GID"
    by (simp_all add: PROC_EVENT_UID_def PROC_EVENT_GID_def)
  from other_kind_ignored [OF this] w show ?thesis by simp
qed

text \<open>
  C8. For every accepted event whose status record cannot be opened: the one lookup
  fails (it is logged), no reassignment request is issued, handling returns 0, and the
  frame loop goes on as after any handled frame: to the next frame, or to the next receive
  after a frame of type done.
\<close>

theorem status_unavailable_loop_proceeds:
  assumes "NLMSG_OK buff nlh len"
    and "nlmsg_type buff nlh \<noteq> NLMSG_NOOP"
    and "nlmsg_type buff nlh \<noteq> NLMSG_ERROR"
    and "nlmsg_type buff nlh \<noteq> NLMSG_OVERRUN"
    and "ev = proc_event_at buff (cn_data (NLMSG_DATA nlh))"
    and "what ev = PROC_EVENT_UID \<or> what ev = PROC_EVENT_GID"
    and "proc_status en (process_pid ev) = None"
    and "h = snd (cgre_handle_msg en buff (NLMSG_DATA nlh))"
  shows "lookups h = [Fopen_status (process_pid ev)] \<and>
         last h = Flog (Failed_to_open (process_pid ev)) \<and>
         requests h = [] \<and>
         fst (cgre_handle_msg en buff (NLMSG_DATA nlh)) = 0 \<and>
         frame_loop en buff nlh len tr =
           (if nlmsg_type buff nlh = NLMSG_DONE then Some (Next_receive, tr @ h)
            else frame_loop en buff (NLMSG_NEXT buff nlh) (NLMSG_NEXT_len buff nlh len) (tr @ h))"
proof -
  note hm = handle_msg_no_file [OF assms(5,6,7)]
  from hm have z: "0 \<le> fst (cgre_handle_msg en buff (NLMSG_DATA nlh))" by simp
  from hm assms(8) have "lookups h = [Fopen_status (process_pid ev)]"
    and "last h = Flog (Failed_to_open (process_pid ev))" and "requests h = []"
    by (simp_all add: lookups_def requests_def)
  moreover from hm have "fst (cgre_handle_msg en buff (NLMSG_DATA nlh)) = 0" by simp
  moreover note frame_loop_handled [OF assms(1-4) z, of tr, folded assms(8)]
  ultimately show ?thesis by simp
qed

text \<open>
  No status record exists: both events of the receive are looked up in vain, one after
  the other.
\<close>

theorem status_unavailable_loop_proceeds_witness:
  "frame_loop (world None 0) two_frames 0 136 [] =
     Some (Next_receive,
       [Flog UID_Event, Flog (UID_fields 100 100 1000 2000), Fopen_status 100,
        Flog (Failed_to_open 100),
        Flog GID_Event, Flog (GID_fields 100 100 1000 2000), Fopen_status 100,
        Flog (Failed_to_open 100)])"
proof -
  let ?g = "uid_event\<lparr>what := PROC_EVENT_GID\<rparr>"
  have p: "proc_status (world None 0) pid = None" for pid
    by (simp add: world_def)
  have w: "what uid_event = PROC_EVENT_UID \<or> what uid_event = PROC_EVENT_GID"
    by (simp add: uid_event_def)
  have wg: "what ?g = PROC_EVENT_UID \<or> what ?g = PROC_EVENT_GID" by simp
  have t: "nlmsg_type two_frames 0 \<noteq> NLMSG_NOOP" "nlmsg_type two_frames 0 \<noteq> NLMSG_ERROR"
    "nlmsg_type two_frames 0 \<noteq> NLMSG_OVERRUN"
    "nlmsg_type two_frames 68 \<noteq> NLMSG_NOOP" "nlmsg_type two_frames 68 \<noteq> NLMSG_ERROR"
    "nlmsg_type two_frames 68 \<noteq> NLMSG_OVERRUN"
    by (simp_all add: two_frames_facts NLMSG_NOOP_def NLMSG_ERROR_def NLMSG_OVERRUN_def)
  have d: "nlmsg_type two_frames 0 \<noteq> NLMSG_DONE" "nlmsg_type two_frames 68 = NLMSG_DONE"
    by (simp_all add: two_frames_facts NLMSG_DONE_def)
  have o: "NLMSG_OK two_frames 0 136" "NLMSG_OK two_frames 68 68"
    by (simp_all add: NLMSG_OK_def two_frames_facts)
  have e: "uid_event = proc_event_at two_frames (cn_data (NLMSG_DATA 0))"
    "?g = proc_event_at two_frames (cn_data (NLMSG_DATA 68))"
    by (simp_all add: two_frames_events)
  have h1: "snd (cgre_handle_msg (world None 0) two_frames (NLMSG_DATA 0)) =
      [Flog UID_Event, Flog (UID_fields 100 100 1000 2000), Fopen_status 100,
       Flog (Failed_to_open 100)]"
    using handle_msg_no_file [OF e(1) w p] by (simp add: uid_event_def)
  have h2: "cgre_handle_msg (world None 0) two_frames (NLMSG_DATA 68) =
      (0, [Flog GID_Event, Flog (GID_fields 100 100 1000 2000), Fopen_status 100,
       Flog (Failed_to_open 100)])"
    using handle_msg_no_file [OF e(2) wg p]
    by (simp add: uid_event_def PROC_EVENT_UID_def PROC_EVENT_GID_def)
  from status_unavailable_loop_proceeds [OF o(1) t(1,2,3) e(1) w p refl, of "[]"] d(1)
  have "frame_loop (world None 0) two_frames 0 136 [] =
      frame_loop (world None 0) two_frames 68 68
        [Flog UID_Event, Flog (UID_fields 100 100 1000 2000), Fopen_status 100,
         Flog (Failed_to_open 100)]"
    by (simp add: h1 two_frames_next)
  also have "\<dots> = Some (Next_receive,
      [Flog UID_Event, Flog (UID_fields 100 100 1000 2000), Fopen_status 100,
       Flog (Failed_to_open 100)] @
      snd (cgre_handle_msg (world None 0) two_frames (NLMSG_DATA 68)))"
    by (rule frame_loop_done [OF o(2) t(4,5,6) _ d(2)]) (simp add: h2)
  finally show ?thesis by (simp add: h2)
qed

text \<open>
  C9. When the status record of an event's pid cannot be opened, \<^verbatim>\<open>cgre_process_event\<close>
  returns 0 and issues no request; it returns the same 0 in a world \<open>en'\<close> where the record
  opens and the request it issues succeeds. The return code does not tell the two apart.
\<close>

theorem missing_status_returns_zero:
  assumes "proc_status en (process_pid ev) = None"
    and "proc_status en' (process_pid ev) = Some f" and "calloc_errno en' = None"
    and "change_cgroup en' (id_e ev) (scan_status ''Gid:'' (stack_egid en') f) (process_pid ev) = 0"
  shows "fst (cgre_process_event en ev type) = 0 \<and>
         requests (snd (cgre_process_event en ev type)) = [] \<and>
         fst (cgre_process_event en' ev PROC_EVENT_UID) = 0 \<and>
         requests (snd (cgre_process_event en' ev PROC_EVENT_UID)) \<noteq> []"
  using process_event_no_file [OF assms(1), of type]
    process_event_uid [OF assms(2,3) refl refl] assms(4)
  by (simp add: requests_def)

theorem missing_status_returns_zero_witness:
  "fst (cgre_process_event (world None 0) uid_event PROC_EVENT_UID) = 0 \<and>
   fst (cgre_process_event (world (Some ''Gid: 30 40 30 30'') 0) uid_event PROC_EVENT_UID) = 0 \<and>
   requests (snd (cgre_process_event (world None 0) uid_event PROC_EVENT_UID)) = [] \<and>
   requests (snd (cgre_process_event (world (Some ''Gid: 30 40 30 30'') 0) uid_event
      PROC_EVENT_UID)) \<noteq> []"
  using missing_status_returns_zero
    [of "world None 0" uid_event "world (Some ''Gid: 30 40 30 30'') 0" "''Gid: 30 40 30 30''"
        PROC_EVENT_UID]
  by (simp add: world_def uid_event_def)

text \<open>
  C10. When a status record has several lines that begin with the expected label, the
  scan stops at the first of them: the buffer \<^verbatim>\<open>sscanf\<close> reads is that line, the rest of
  the record (the lines \<open>rest\<close>, whatever they hold) is left unread, and the four integers
  are those of that line.
\<close>

theorem first_label_match_wins:
  assumes "status_reads f = pre @ l # rest"
    and "\<forall>b \<in> set pre. \<not> strncmp4_eq b label"
    and "strncmp4_eq l label"
  shows "(\<exists>f'. find_label label f = Some (l, f') \<and> status_reads f' = rest) \<and>
         scan_values label f = Some (sscanf_d 4 (drop 5 l)) \<and>
         scan_status label old f = second_or old (sscanf_d 4 (drop 5 l))"
  using find_label_reads [OF assms] scan_values_first [OF assms]
  by (simp add: scan_status_def)

text \<open>Two Gid lines: the values are those of the first.\<close>

theorem first_label_match_wins_witness:
  "status_reads (''Gid: 1 2 3 4'' @ [newline] @ ''Gid: 5 6 7 8'' @ [newline]) =
     [''Gid: 1 2 3 4'' @ [newline], ''Gid: 5 6 7 8'' @ [newline]] \<and>
   scan_values ''Gid:'' (''Gid: 1 2 3 4'' @ [newline] @ ''Gid: 5 6 7 8'' @ [newline]) =
     Some [1, 2, 3, 4] \<and>
   scan_status ''Gid:'' 0 (''Gid: 1 2 3 4'' @ [newline] @ ''Gid: 5 6 7 8'' @ [newline]) = 2"
proof -
  have r: "status_reads (''Gid: 1 2 3 4'' @ [newline] @ ''Gid: 5 6 7 8'' @ [newline]) =
      [] @ (''Gid: 1 2 3 4'' @ [newline]) # [''Gid: 5 6 7 8'' @ [newline]]"
    by code_simp
  have v: "sscanf_d 4 (drop 5 (''Gid: 1 2 3 4'' @ [newline])) = [1, 2, 3, 4]"
    by code_simp
  from first_label_match_wins [OF r, of "''Gid:''" 0] r v show ?thesis
    by (simp add: strncmp4_eq_def second_or_def)
qed

end
